theory Spec2Isabelle
  imports Main "HOL-Library.Multiset" "HOL-Library.Product_Lexorder" "HOL-Library.Word"
    "HOL-Library.Finite_Map"
begin

section \<open>Data model (backend/models/models.go)\<close>

text \<open>
  The three GORM models and the join table of the many-to-many relation between roles
  and permissions. Go's \<open>uint\<close> keys are natural numbers, Go's \<open>int\<close> columns that are only
  compared are integers, \<open>time.Time\<close> is a natural number (a clock reading). The
  association fields of the structs (\<open>User.Role\<close>, \<open>Role.Permissions\<close>,
  \<open>Permission.Roles\<close>) are not columns: the rows of \<open>role_permissions\<close> hold them.
\<close>

record Permission =
  Perm_ID :: nat
  Perm_Name :: string
  Perm_Code :: string
  Perm_ParentCode :: string
  Perm_Path :: string
  Perm_Type :: int
  Perm_Sort :: int
  Perm_Description :: string
  Perm_CreatedAt :: nat
  Perm_UpdatedAt :: nat

text \<open>\<open>User\<close>: the password column holds what the services write to it. \<open>RoleID\<close> is
  the nullable foreign key; the \<open>Role\<close> pointer of the struct is filled by a preload only, and no
  service below preloads it, so it is \<open>nil\<close> on every path modelled here.\<close>

record User =
  User_ID :: nat
  User_Username :: string
  User_Password :: string
  User_Realname :: string
  User_Email :: string
  User_Status :: int
  User_CreatedAt :: nat
  User_UpdatedAt :: nat
  User_RoleID :: "nat option"

record Role =
  Role_ID :: nat
  Role_Name :: string
  Role_Code :: string
  Role_Description :: string
  Role_CreatedAt :: nat
  Role_UpdatedAt :: nat

text \<open>The database: the three tables in the order an unordered \<open>SELECT\<close> returns their rows,
  the join table as pairs (role id, permission id), and the counter SQLite keeps for the
  \<open>AUTOINCREMENT\<close> key of \<open>users\<close>.\<close>

record DB =
  users :: "User list"
  users_seq :: nat
  roles :: "Role list"
  permissions :: "Permission list"
  role_permissions :: "(nat \<times> nat) list"

text \<open>The errors the services return: \<open>gorm.ErrRecordNotFound\<close>, the two \<open>errors.New\<close> values
  of user\_service.go (user does not exist, user name already exists), a failure of bcrypt, a
  violated key or unique index, a statement the database rejects, any other database
  failure, and a failure to sign a token. \<open>ErrNotRepresented\<close> is no error of the program:
  it marks an update of a table that the model does not follow.\<close>

datatype error =
    ErrRecordNotFound
  | ErrUserNotExist
  | ErrUsernameExists
  | ErrPasswordTooLong
  | ErrConstraint
  | ErrStatement
  | ErrDatabase
  | ErrToken
  | ErrNotRepresented

text \<open>Package \<open>golang.org/x/crypto/bcrypt\<close> is a parameter of the model: hashing draws a random
  salt and may fail; comparing says whether the error it returns is \<open>nil\<close>.\<close>

record bcrypt =
  GenerateFromPassword :: "string \<Rightarrow> error + string"
  CompareHashAndPassword :: "string \<Rightarrow> string \<Rightarrow> bool"

text \<open>The values of a \<open>map[string]interface{}\<close> of column updates, and the map itself. The
  handlers put Go strings and Go ints into the map; values of other kinds are not in the
  model.\<close>

datatype val = VString string | VInt int

type_synonym updates = "(string, val) fmap"

section \<open>The permission tree (backend/services/permission\_service.go)\<close>

text \<open>
  \<open>PermissionTree\<close> nodes live on the heap and are linked by pointers. Every node the
  function ever holds is the entry of \<open>treeMap\<close> under the node's own code, so a pointer
  \<open>*PermissionTree\<close> is modelled by that key and the heap by \<open>treeMap\<close> itself.
\<close>

type_synonym ptr = string

record PermissionTree =
  Tree_ID :: nat
  Tree_Name :: string
  Tree_Code :: string
  Tree_ParentCode :: string
  Tree_Path :: string
  Tree_Type :: int
  Tree_Sort :: int
  Tree_Description :: string
  Tree_Children :: "ptr list"
  Tree_HasChildren :: bool

type_synonym heap = "ptr \<rightharpoonup> PermissionTree"

text \<open>The struct literal of the first loop.\<close>

definition new_node :: "Permission \<Rightarrow> PermissionTree" where
  "new_node perm =
     \<lparr>Tree_ID = Perm_ID perm, Tree_Name = Perm_Name perm, Tree_Code = Perm_Code perm,
      Tree_ParentCode = Perm_ParentCode perm, Tree_Path = Perm_Path perm,
      Tree_Type = Perm_Type perm, Tree_Sort = Perm_Sort perm,
      Tree_Description = Perm_Description perm, Tree_Children = [],
      Tree_HasChildren = False\<rparr>"

text \<open>First loop: \<open>treeMap[perm.Code] = &PermissionTree{...}\<close>; a later permission with
  the same code overwrites the entry.\<close>

definition create_nodes :: "Permission list \<Rightarrow> heap" where
  "create_nodes perms = foldl (\<lambda>treeMap perm. treeMap(Perm_Code perm \<mapsto> new_node perm)) Map.empty perms"

text \<open>Second loop, one iteration: a permission with an empty parent code is appended to
  \<open>roots\<close>; otherwise it is appended to the children of its parent when the parent code
  is a key of \<open>treeMap\<close>, and nothing happens when it is not.\<close>

fun link_node :: "heap \<times> ptr list \<Rightarrow> Permission \<Rightarrow> heap \<times> ptr list" where
  "link_node (treeMap, roots) perm =
     (if Perm_ParentCode perm = [] then (treeMap, roots @ [Perm_Code perm])
      else (case treeMap (Perm_ParentCode perm) of
              Some parent \<Rightarrow>
                (treeMap(Perm_ParentCode perm \<mapsto>
                   parent\<lparr>Tree_Children := Tree_Children parent @ [Perm_Code perm],
                          Tree_HasChildren := True\<rparr>), roots)
            | None \<Rightarrow> (treeMap, roots)))"

definition link_nodes :: "heap \<Rightarrow> Permission list \<Rightarrow> heap \<times> ptr list" where
  "link_nodes treeMap perms = foldl link_node (treeMap, []) perms"

text \<open>The comparison both calls of \<open>sort.Slice\<close> use, on two nodes and through two
  pointers. Every pointer given to it is a key of the heap.\<close>

definition less_Type_Sort :: "PermissionTree \<Rightarrow> PermissionTree \<Rightarrow> bool" where
  "less_Type_Sort x y =
     (if Tree_Type x = Tree_Type y then Tree_Sort x < Tree_Sort y else Tree_Type x < Tree_Type y)"

definition ptr_less :: "heap \<Rightarrow> ptr \<Rightarrow> ptr \<Rightarrow> bool" where
  "ptr_less h a b =
     (case h a of None \<Rightarrow> False
      | Some x \<Rightarrow> (case h b of None \<Rightarrow> False | Some y \<Rightarrow> less_Type_Sort x y))"

text \<open>
  \<open>sort.Slice\<close> of Go's standard library promises a permutation of the slice that is
  ordered by \<open>less\<close>, and no stability. The model is the insertion sort the library runs
  on slices of up to twelve elements: each element moves left past the neighbours it is
  less than. \<open>sift\<close> works on the sorted prefix in reverse (nearest neighbour first).
\<close>

fun sift :: "('a \<Rightarrow> 'a \<Rightarrow> bool) \<Rightarrow> 'a \<Rightarrow> 'a list \<Rightarrow> 'a list" where
  "sift lt x [] = [x]"
| "sift lt x (y # rs) = (if lt x y then y # sift lt x rs else x # y # rs)"

definition sort_Slice :: "('a \<Rightarrow> 'a \<Rightarrow> bool) \<Rightarrow> 'a list \<Rightarrow> 'a list" where
  "sort_Slice lt xs = rev (foldl (\<lambda>rs x. sift lt x rs) [] xs)"

text \<open>
  \<open>sortChildren\<close> recurses along the child pointers, so it returns only when no chain of
  children is endless: the first argument bounds the depth of the recursion and \<open>None\<close>
  says that the bound was reached (or that a pointer was not on the heap). The loop over
  \<open>nodes\<close> keeps the bound; the call on the children of a node lowers it.
\<close>

fun sortChildren :: "nat \<Rightarrow> heap \<Rightarrow> ptr list \<Rightarrow> heap option" where
  "sortChildren 0 h nodes = None"
| "sortChildren (Suc n) h [] = Some h"
| "sortChildren (Suc n) h (k # nodes) =
     (case h k of
        None \<Rightarrow> None
      | Some node \<Rightarrow>
          if Tree_Children node \<noteq> [] then
            (let cs = sort_Slice (ptr_less h) (Tree_Children node);
                 h' = h(k \<mapsto> node\<lparr>Tree_Children := cs\<rparr>)
             in case sortChildren n h' cs of
                  None \<Rightarrow> None
                | Some h'' \<Rightarrow> sortChildren (Suc n) h'' nodes)
          else sortChildren (Suc n) h nodes)"

text \<open>\<open>GetAllPermissions\<close>: all rows, \<open>ORDER BY type ASC, sort ASC, id ASC\<close>.\<close>

definition GetAllPermissions :: "Permission list \<Rightarrow> Permission list" where
  "GetAllPermissions table = sort_key (\<lambda>p. (Perm_Type p, Perm_Sort p, Perm_ID p)) table"

text \<open>\<open>GetPermissionTrees\<close> on the rows of the permissions table: the root pointers and the
  heap they point into.\<close>

definition GetPermissionTrees :: "nat \<Rightarrow> Permission list \<Rightarrow> (ptr list \<times> heap) option" where
  "GetPermissionTrees fuel table =
     (let permissions = GetAllPermissions table;
          treeMap = create_nodes permissions;
          (treeMap', roots) = link_nodes treeMap permissions;
          roots' = sort_Slice (ptr_less treeMap') roots
      in map_option (\<lambda>h. (roots', h)) (sortChildren fuel treeMap' roots'))"

text \<open>The nodes of the returned forest: the roots, and the children of its nodes.\<close>

inductive in_forest :: "heap \<Rightarrow> ptr list \<Rightarrow> ptr \<Rightarrow> bool" for h :: heap and roots :: "ptr list" where
  root: "k \<in> set roots \<Longrightarrow> in_forest h roots k"
| child: "in_forest h roots k \<Longrightarrow> h k = Some node \<Longrightarrow> c \<in> set (Tree_Children node) \<Longrightarrow> in_forest h roots c"

code_pred in_forest .



section \<open>Services (backend/services/user\_service.go, role\_service.go, permission\_service.go)\<close>

text \<open>\<open>First\<close> of GORM: the matching row with the least primary key, or
  \<open>ErrRecordNotFound\<close>.\<close>

definition gorm_First :: "('a \<Rightarrow> nat) \<Rightarrow> ('a \<Rightarrow> bool) \<Rightarrow> 'a list \<Rightarrow> error + 'a" where
  "gorm_First pk cond rows =
     (case filter cond rows of [] \<Rightarrow> Inl ErrRecordNotFound | r # rs \<Rightarrow> Inr (arg_min_list pk (r # rs)))"

text \<open>\<open>Offset(offset).Limit(limit).Find\<close> of GORM: an offset that is not positive adds no
  \<open>OFFSET\<close> clause and a negative limit adds no \<open>LIMIT\<close> clause; a limit of 0 is
  \<open>LIMIT 0\<close>, as in the current releases of GORM.\<close>

definition gorm_Offset_Limit_Find :: "int \<Rightarrow> int \<Rightarrow> 'a list \<Rightarrow> 'a list" where
  "gorm_Offset_Limit_Find offset limit rows =
     (let skipped = (if 0 < offset then drop (nat offset) rows else rows)
      in if 0 \<le> limit then take (nat limit) skipped else skipped)"

text \<open>\<open>GetUserList\<close> and \<open>GetRoleList\<close>. Go's \<open>int\<close> is a 64-bit word: the offset
  \<open>(page - 1) * pageSize\<close> wraps around, and GORM reads it as a signed number.\<close>

definition GetUserList :: "DB \<Rightarrow> 64 word \<Rightarrow> 64 word \<Rightarrow> error + (User list \<times> int)" where
  "GetUserList db page pageSize =
     (let offset = (page - 1) * pageSize;
          total_rows = int (length (users db))
      in Inr (gorm_Offset_Limit_Find (sint offset) (sint pageSize) (users db), total_rows))"

definition GetRoleList :: "DB \<Rightarrow> 64 word \<Rightarrow> 64 word \<Rightarrow> error + (Role list \<times> int)" where
  "GetRoleList db page pageSize =
     (let offset = (page - 1) * pageSize;
          total_rows = int (length (roles db))
      in Inr (gorm_Offset_Limit_Find (sint offset) (sint pageSize) (roles db), total_rows))"

text \<open>\<open>GetUserByID\<close> and \<open>GetUserByUsername\<close> replace \<open>ErrRecordNotFound\<close> by their own error.\<close>

definition GetUserByID :: "DB \<Rightarrow> nat \<Rightarrow> error + User" where
  "GetUserByID db id' =
     (case gorm_First User_ID (\<lambda>u. User_ID u = id') (users db) of
        Inl err \<Rightarrow> if err = ErrRecordNotFound then Inl ErrUserNotExist else Inl err
      | Inr user \<Rightarrow> Inr user)"


text \<open>\<open>DB.Create(user)\<close>: a zero key is replaced by the next \<open>AUTOINCREMENT\<close> value, a zero
  status by the column default 1, zero time stamps by the clock; the insert fails on a key
  or a user name that is already in the table. The key is the rowid of the row, and an
  unordered \<open>SELECT\<close> lists the rows by rowid: the new row is put where its key belongs,
  which is the end of the table for a key that \<open>AUTOINCREMENT\<close> has drawn.\<close>

definition max_id :: "nat list \<Rightarrow> nat" where
  "max_id ids = fold max ids 0"

definition gorm_Create_user :: "nat \<Rightarrow> DB \<Rightarrow> User \<Rightarrow> (error + User) \<times> DB" where
  "gorm_Create_user now db user =
     (let id' = (if User_ID user = 0 then Suc (max (users_seq db) (max_id (map User_ID (users db))))
                 else User_ID user);
          row = user\<lparr>User_ID := id',
                     User_Status := (if User_Status user = 0 then 1 else User_Status user),
                     User_CreatedAt := (if User_CreatedAt user = 0 then now else User_CreatedAt user),
                     User_UpdatedAt := (if User_UpdatedAt user = 0 then now else User_UpdatedAt user)\<rparr>
      in if id' \<in> set (map User_ID (users db)) \<or> User_Username user \<in> set (map User_Username (users db))
         then (Inl ErrConstraint, db)
         else (Inr row, db\<lparr>users := insort_key User_ID row (users db), users_seq := max (users_seq db) id'\<rparr>))"

text \<open>\<open>CreateUser\<close>: counts the rows with the user name, hashes the password, inserts. It
  returns the struct as \<open>Create\<close> leaves it behind the caller's pointer.\<close>

definition CreateUser :: "bcrypt \<Rightarrow> nat \<Rightarrow> DB \<Rightarrow> User \<Rightarrow> (error + User) \<times> DB" where
  "CreateUser bc now db user =
     (let count_rows = length (filter (\<lambda>u. User_Username u = User_Username user) (users db))
      in if 0 < count_rows then (Inl ErrUsernameExists, db)
         else (case GenerateFromPassword bc (User_Password user) of
                 Inl err \<Rightarrow> (Inl err, db)
               | Inr hashedPassword \<Rightarrow> gorm_Create_user now db (user\<lparr>User_Password := hashedPassword\<rparr>)))"

text \<open>What SQLite makes of a value that is bound to a column. A column of text takes a Go
  string as it is and an integer as its decimal text. A column of integers takes an integer
  as it is and a text that is a decimal integer of 64 bits, with or without a sign, as
  that integer (\<open>sqlite_integer\<close>). Of the other texts SQLite turns some into a number
  (blanks around the digits, a fraction, an exponent) and stores the rest as texts; the
  model follows none of them, see \<open>representable_user_updates\<close> below.\<close>

function show_nat :: "nat \<Rightarrow> string" where
  "show_nat n = (if n < 10 then [''0123456789'' ! n] else show_nat (n div 10) @ [''0123456789'' ! (n mod 10)])"
  by pat_completeness auto

termination
  by (relation "measure (\<lambda>n. n)") auto

declare show_nat.simps [simp del]

definition show_int :: "int \<Rightarrow> string" where
  "show_int i = (if i < 0 then CHR ''-'' # show_nat (nat (- i)) else show_nat (nat i))"

definition is_digit :: "char \<Rightarrow> bool" where
  "is_digit c = (48 \<le> (of_char c :: nat) \<and> (of_char c :: nat) \<le> 57)"

definition decimal :: "string \<Rightarrow> nat option" where
  "decimal ds =
     (if ds \<noteq> [] \<and> list_all is_digit ds
      then Some (foldl (\<lambda>n c. 10 * n + (of_char c - 48)) 0 ds) else None)"

text \<open>\<open>strconv.Atoi\<close>: digits behind an optional sign, within 64 bits.\<close>

definition Atoi :: "string \<Rightarrow> int option" where
  "Atoi s =
     (let parsed = (case s of
                      [] \<Rightarrow> None
                    | c # ds \<Rightarrow> if c = CHR ''-'' then map_option (\<lambda>n. - int n) (decimal ds)
                                else if c = CHR ''+'' then map_option int (decimal ds)
                                else map_option int (decimal s))
      in case parsed of
           None \<Rightarrow> None
         | Some i \<Rightarrow> if - (2 ^ 63) \<le> i \<and> i < 2 ^ 63 then Some i else None)"

definition sqlite_integer :: "string \<Rightarrow> int option" where
  "sqlite_integer s = Atoi s"

definition text_cell :: "val \<Rightarrow> string" where
  "text_cell v = (case v of VString s \<Rightarrow> s | VInt i \<Rightarrow> show_int i)"

definition integer_cell :: "val \<Rightarrow> int option" where
  "integer_cell v = (case v of VInt i \<Rightarrow> Some i | VString s \<Rightarrow> sqlite_integer s)"

text \<open>\<open>Model(&User{}).Where("id = ?", id).Updates(updates)\<close>: one \<open>UPDATE\<close> statement. GORM
  goes through the keys of the map in sorted order and looks each one up in the schema,
  first among the column names and then among the names of the struct fields: a key that
  names a column either way adds an assignment of its value to that column, the key \<open>Role\<close>
  (the association, which has no column) adds nothing, and any other key is taken as a
  column name, which the table does not have, so that the statement fails. When the map
  has no entry for \<open>updated_at\<close> GORM adds the assignment of the clock to it. Where a column
  is assigned twice SQLite takes the rightmost assignment; the column name sorts after the
  field name, so that \<open>entry\<close> gives the value a column gets.\<close>

definition entry :: "updates \<Rightarrow> string \<Rightarrow> string \<Rightarrow> val option" where
  "entry m column field = (case fmlookup m column of Some v \<Rightarrow> Some v | None \<Rightarrow> fmlookup m field)"

definition user_keys :: "string fset" where
  "user_keys = {|''id'', ''ID'', ''username'', ''Username'', ''password'', ''Password'',
     ''realname'', ''Realname'', ''email'', ''Email'', ''status'', ''Status'',
     ''created_at'', ''CreatedAt'', ''updated_at'', ''UpdatedAt'', ''role_id'', ''RoleID'', ''Role''|}"

text \<open>The key \<open>id\<close> is the rowid: SQLite refuses a text there that is no integer (datatype
  mismatch).\<close>

definition key_mismatch :: "updates \<Rightarrow> bool" where
  "key_mismatch m = (case entry m ''id'' ''ID'' of None \<Rightarrow> False | Some v \<Rightarrow> integer_cell v = None)"

text \<open>The rows of this model are the rows GORM can read back into the struct: a key and a
  role key that are natural numbers, a status that is an integer, time stamps that are clock
  readings. SQLite also stores what is none of these (a negative key, a text that is no
  integer in \<open>status\<close> or \<open>role_id\<close>, whatever the map holds for a time stamp), and the row
  can then no longer be read into the struct. \<open>representable_user_updates\<close> says that the
  map assigns nothing of that kind: these are the maps the model follows.\<close>

definition holds_int :: "val option \<Rightarrow> bool" where
  "holds_int e = (case e of None \<Rightarrow> True | Some v \<Rightarrow> integer_cell v \<noteq> None)"

definition holds_nat :: "val option \<Rightarrow> bool" where
  "holds_nat e =
     (case e of None \<Rightarrow> True | Some v \<Rightarrow> (case integer_cell v of None \<Rightarrow> False | Some i \<Rightarrow> 0 \<le> i))"

definition representable_user_updates :: "updates \<Rightarrow> bool" where
  "representable_user_updates m =
     (holds_nat (entry m ''id'' ''ID'') \<and> holds_int (entry m ''status'' ''Status'') \<and>
      holds_nat (entry m ''role_id'' ''RoleID'') \<and>
      entry m ''created_at'' ''CreatedAt'' = None \<and> entry m ''updated_at'' ''UpdatedAt'' = None)"

definition text_or :: "val option \<Rightarrow> string \<Rightarrow> string" where
  "text_or e old = (case e of None \<Rightarrow> old | Some v \<Rightarrow> text_cell v)"

definition integer_or :: "val option \<Rightarrow> int \<Rightarrow> int" where
  "integer_or e old = (case e of None \<Rightarrow> old | Some v \<Rightarrow> (case integer_cell v of None \<Rightarrow> old | Some i \<Rightarrow> i))"

definition assign_user :: "updates \<Rightarrow> nat \<Rightarrow> User \<Rightarrow> User" where
  "assign_user m now u =
     u\<lparr>User_ID := nat (integer_or (entry m ''id'' ''ID'') (int (User_ID u))),
       User_Username := text_or (entry m ''username'' ''Username'') (User_Username u),
       User_Password := text_or (entry m ''password'' ''Password'') (User_Password u),
       User_Realname := text_or (entry m ''realname'' ''Realname'') (User_Realname u),
       User_Email := text_or (entry m ''email'' ''Email'') (User_Email u),
       User_Status := integer_or (entry m ''status'' ''Status'') (User_Status u),
       User_RoleID := (case entry m ''role_id'' ''RoleID'' of
                         None \<Rightarrow> User_RoleID u
                       | Some v \<Rightarrow> map_option nat (integer_cell v)),
       User_UpdatedAt := now\<rparr>"

text \<open>The statement: it fails on a key that names no column; it changes nothing when no row
  has the key \<open>id'\<close>; it fails on a datatype mismatch, and on a row that would get the
  user name or the key of another row (the unique index, the primary key). Otherwise the
  rows with the key \<open>id'\<close> are assigned, and listed by rowid again when the key itself
  was assigned. \<open>ErrNotRepresented\<close> is no error of the program: it marks the updates the
  model does not follow, after which a row could not be read.\<close>

definition gorm_Updates_users :: "nat \<Rightarrow> DB \<Rightarrow> nat \<Rightarrow> updates \<Rightarrow> (error + unit) \<times> DB" where
  "gorm_Updates_users now db id' m =
     (if \<not> fmdom m |\<subseteq>| user_keys then (Inl ErrStatement, db)
      else if \<not> list_ex (\<lambda>u. User_ID u = id') (users db) then (Inr (), db)
      else if key_mismatch m then (Inl ErrStatement, db)
      else if \<not> representable_user_updates m then (Inl ErrNotRepresented, db)
      else if list_ex (\<lambda>u. User_ID u = id' \<and>
                list_ex (\<lambda>other. User_ID other \<noteq> id' \<and>
                   (User_Username other = User_Username (assign_user m now u) \<or>
                    User_ID other = User_ID (assign_user m now u))) (users db)) (users db)
      then (Inl ErrConstraint, db)
      else (let rows = map (\<lambda>u. if User_ID u = id' then assign_user m now u else u) (users db)
            in (Inr (), db\<lparr>users := (if entry m ''id'' ''ID'' = None then rows else sort_key User_ID rows)\<rparr>)))"

text \<open>\<open>UpdateUser\<close>: a \<open>password\<close> entry that is a non-empty string is replaced by its hash
  before the update.\<close>

definition UpdateUser :: "bcrypt \<Rightarrow> nat \<Rightarrow> DB \<Rightarrow> nat \<Rightarrow> updates \<Rightarrow> (error + unit) \<times> DB" where
  "UpdateUser bc now db id' m =
     (case fmlookup m ''password'' of
        Some (VString password) \<Rightarrow>
          if password \<noteq> [] then
            (case GenerateFromPassword bc password of
               Inl err \<Rightarrow> (Inl err, db)
             | Inr hashedPassword \<Rightarrow>
                 gorm_Updates_users now db id' (fmupd ''password'' (VString hashedPassword) m))
          else gorm_Updates_users now db id' m
      | _ \<Rightarrow> gorm_Updates_users now db id' m)"

text \<open>\<open>VerifyPassword\<close>.\<close>

definition VerifyPassword :: "bcrypt \<Rightarrow> User \<Rightarrow> string \<Rightarrow> bool" where
  "VerifyPassword bc user password = CompareHashAndPassword bc (User_Password user) password"

text \<open>Package \<open>golang.org/x/crypto/bcrypt\<close> around its two sources of values, which stay
  parameters: \<open>salt_for\<close>, the encoded salt that \<open>GenerateFromPassword\<close> draws for a call (or
  the error it stops with, as for a password of more than 72 bytes in the current releases),
  and \<open>hash_of\<close>, the encoded output of the key schedule and encryption for a cost, an
  encoded salt and a key (or the error of decoding the salt). The package gives the key
  schedule the password followed by a NUL byte, and the key schedule reads 72 bytes of
  it, starting again at the first byte whenever it has reached the last one:
  \<open>bcrypt_key\<close>. A hash is the text \<open>$2a$\<close>, the cost in two digits, \<open>$\<close>, the 22
  characters of the salt and the 31 characters of the output. \<open>CompareHashAndPassword\<close>
  takes the stored text apart (\<open>parse_hash\<close>: at least 59 bytes, \<open>$\<close>, a version byte of at
  most \<open>2\<close>, an optional minor version, the cost read by \<open>strconv.Atoi\<close> and between 4
  and 31, one byte that is not looked at, 22 bytes of salt, the rest), computes the output
  for the password with that cost and salt, and accepts when it is the rest. \<open>fit\<close> cuts
  or fills what the parameters give to the 22 and 31 characters that the salt and the
  output have in the package.\<close>

fun cycle :: "nat \<Rightarrow> 'a list \<Rightarrow> 'a list \<Rightarrow> 'a list" where
  "cycle 0 key rest = []"
| "cycle (Suc n) key [] = (case key of [] \<Rightarrow> [] | k # ks \<Rightarrow> k # cycle n key ks)"
| "cycle (Suc n) key (r # rest) = r # cycle n key rest"

definition bcrypt_key :: "string \<Rightarrow> string" where
  "bcrypt_key password = cycle 72 (password @ [CHR 0x00]) (password @ [CHR 0x00])"

definition fit :: "nat \<Rightarrow> string \<Rightarrow> string" where
  "fit n s = take n (s @ replicate n CHR ''.'')"

definition parse_hash :: "string \<Rightarrow> (nat \<times> string \<times> string) option" where
  "parse_hash h =
     (if length h < 59 then None
      else if h ! 0 \<noteq> CHR ''$'' then None
      else if (of_char CHR ''2'' :: nat) < of_char (h ! 1) then None
      else (let n = (if h ! 2 \<noteq> CHR ''$'' then 4 else 3)
            in case Atoi (take 2 (drop n h)) of
                 None \<Rightarrow> None
               | Some cost \<Rightarrow> if cost < 4 \<or> 31 < cost then None
                              else Some (nat cost, take 22 (drop (n + 3) h), drop (n + 25) h)))"

definition bcrypt_package ::
  "(string \<Rightarrow> error + string) \<Rightarrow> (nat \<Rightarrow> string \<Rightarrow> string \<Rightarrow> error + string) \<Rightarrow> bcrypt" where
  "bcrypt_package salt_for hash_of =
     \<lparr>GenerateFromPassword = (\<lambda>password.
        case salt_for password of
          Inl err \<Rightarrow> Inl err
        | Inr salt \<Rightarrow>
            (case hash_of 10 (fit 22 salt) (bcrypt_key password) of
               Inl err \<Rightarrow> Inl err
             | Inr out \<Rightarrow> Inr (''$2a$10$'' @ fit 22 salt @ fit 31 out))),
      CompareHashAndPassword = (\<lambda>hashedPassword password.
        case parse_hash hashedPassword of
          None \<Rightarrow> False
        | Some (cost, salt, rest) \<Rightarrow>
            (case hash_of cost salt (bcrypt_key password) of
               Inl err \<Rightarrow> False
             | Inr out \<Rightarrow> rest = fit 31 out))\<rparr>"

text \<open>\<open>UpdateRole\<close>: the same statement on \<open>roles\<close>, whose \<open>code\<close> column has the unique index
  and whose association is \<open>Permissions\<close>.\<close>

definition role_keys :: "string fset" where
  "role_keys = {|''id'', ''ID'', ''name'', ''Name'', ''code'', ''Code'', ''description'', ''Description'',
     ''created_at'', ''CreatedAt'', ''updated_at'', ''UpdatedAt'', ''Permissions''|}"

definition representable_role_updates :: "updates \<Rightarrow> bool" where
  "representable_role_updates m =
     (holds_nat (entry m ''id'' ''ID'') \<and>
      entry m ''created_at'' ''CreatedAt'' = None \<and> entry m ''updated_at'' ''UpdatedAt'' = None)"

definition assign_role :: "updates \<Rightarrow> nat \<Rightarrow> Role \<Rightarrow> Role" where
  "assign_role m now r =
     r\<lparr>Role_ID := nat (integer_or (entry m ''id'' ''ID'') (int (Role_ID r))),
       Role_Name := text_or (entry m ''name'' ''Name'') (Role_Name r),
       Role_Code := text_or (entry m ''code'' ''Code'') (Role_Code r),
       Role_Description := text_or (entry m ''description'' ''Description'') (Role_Description r),
       Role_UpdatedAt := now\<rparr>"

definition UpdateRole :: "nat \<Rightarrow> DB \<Rightarrow> nat \<Rightarrow> updates \<Rightarrow> (error + unit) \<times> DB" where
  "UpdateRole now db id' m =
     (if \<not> fmdom m |\<subseteq>| role_keys then (Inl ErrStatement, db)
      else if \<not> list_ex (\<lambda>r. Role_ID r = id') (roles db) then (Inr (), db)
      else if key_mismatch m then (Inl ErrStatement, db)
      else if \<not> representable_role_updates m then (Inl ErrNotRepresented, db)
      else if list_ex (\<lambda>r. Role_ID r = id' \<and>
                list_ex (\<lambda>other. Role_ID other \<noteq> id' \<and>
                   (Role_Code other = Role_Code (assign_role m now r) \<or>
                    Role_ID other = Role_ID (assign_role m now r))) (roles db)) (roles db)
      then (Inl ErrConstraint, db)
      else (let rows = map (\<lambda>r. if Role_ID r = id' then assign_role m now r else r) (roles db)
            in (Inr (), db\<lparr>roles := (if entry m ''id'' ''ID'' = None then rows else sort_key Role_ID rows)\<rparr>)))"

text \<open>\<open>DeleteRole\<close>: \<open>DB.Delete(&models.Role{}, id)\<close> deletes the rows of \<open>roles\<close> with that
  key and touches no other table.\<close>

definition DeleteRole :: "DB \<Rightarrow> nat \<Rightarrow> (error + unit) \<times> DB" where
  "DeleteRole db id' = (Inr (), db\<lparr>roles := filter (\<lambda>r. Role_ID r \<noteq> id') (roles db)\<rparr>)"

text \<open>\<open>DeletePermission\<close> runs five database calls inside one transaction. Each of them may
  fail: \<open>fails\<close> says which. A transaction works on a copy of the state it began with;
  \<open>Rollback\<close> gives the state back as it was, and \<open>Commit\<close> either installs the copy or,
  when it fails, installs nothing.\<close>

datatype step = StepBegin | StepFirst | StepClear | StepDelete | StepCommit

record tx =
  tx_base :: DB
  tx_work :: DB

definition Begin :: "DB \<Rightarrow> tx" where
  "Begin db = \<lparr>tx_base = db, tx_work = db\<rparr>"

definition Rollback :: "tx \<Rightarrow> DB" where
  "Rollback t = tx_base t"

definition Commit :: "(step \<Rightarrow> bool) \<Rightarrow> tx \<Rightarrow> (error + unit) \<times> DB" where
  "Commit fails t = (if fails StepCommit then (Inl ErrDatabase, tx_base t) else (Inr (), tx_work t))"

definition tx_First_permission :: "(step \<Rightarrow> bool) \<Rightarrow> tx \<Rightarrow> nat \<Rightarrow> error + Permission" where
  "tx_First_permission fails t id' =
     (if fails StepFirst then Inl ErrDatabase
      else gorm_First Perm_ID (\<lambda>p. Perm_ID p = id') (permissions (tx_work t)))"

definition tx_Clear_Roles :: "(step \<Rightarrow> bool) \<Rightarrow> tx \<Rightarrow> Permission \<Rightarrow> error + tx" where
  "tx_Clear_Roles fails t permission =
     (if fails StepClear then Inl ErrDatabase
      else Inr (t\<lparr>tx_work := (tx_work t)\<lparr>role_permissions :=
                  filter (\<lambda>(role_id, permission_id). permission_id \<noteq> Perm_ID permission)
                    (role_permissions (tx_work t))\<rparr>\<rparr>))"

definition tx_Delete_permission :: "(step \<Rightarrow> bool) \<Rightarrow> tx \<Rightarrow> Permission \<Rightarrow> error + tx" where
  "tx_Delete_permission fails t permission =
     (if fails StepDelete then Inl ErrDatabase
      else Inr (t\<lparr>tx_work := (tx_work t)\<lparr>permissions :=
                  filter (\<lambda>p. Perm_ID p \<noteq> Perm_ID permission) (permissions (tx_work t))\<rparr>\<rparr>))"

definition DeletePermission :: "(step \<Rightarrow> bool) \<Rightarrow> DB \<Rightarrow> nat \<Rightarrow> (error + unit) \<times> DB" where
  "DeletePermission fails db id' =
     (if fails StepBegin then (Inl ErrDatabase, db)
      else let t = Begin db in
        case tx_First_permission fails t id' of
          Inl err \<Rightarrow> (Inl err, Rollback t)
        | Inr permission \<Rightarrow>
            (case tx_Clear_Roles fails t permission of
               Inl err \<Rightarrow> (Inl err, Rollback t)
             | Inr t1 \<Rightarrow>
                 (case tx_Delete_permission fails t1 permission of
                    Inl err \<Rightarrow> (Inl err, Rollback t1)
                  | Inr t2 \<Rightarrow> Commit fails t2)))"

section \<open>Handlers (the api package) and responses (backend/utils/response.go)\<close>

text \<open>JSON values, as \<open>encoding/json\<close> writes the structs and maps of the handlers; a
  \<open>time.Time\<close> is written in RFC 3339 and kept here as \<open>JTime\<close>.\<close>

datatype json =
    JNull
  | JInt int
  | JString string
  | JTime nat
  | JArray "json list"
  | JObject "(string \<times> json) list"

text \<open>The messages of the envelopes: \<open>success\<close>, the fixed texts of the handlers (parameter
  error, user name or password wrong, token generation failed, listing users failed, deleting
  the role failed), and \<open>err.Error()\<close> of a service error.\<close>

datatype message =
    Msg_success
  | Msg_param_error
  | Msg_bad_credentials
  | Msg_token_failed
  | Msg_user_list_failed
  | Msg_role_delete_failed
  | Msg_error error

text \<open>backend/utils/response.go: the envelope \<open>{code, msg, data}\<close> with \<open>data\<close> left out when
  it is \<open>nil\<close>, \<open>Success\<close>, \<open>Error\<close> and \<open>NewPageData\<close>.\<close>

record Response =
  Resp_Code :: int
  Resp_Msg :: message
  Resp_Data :: "json option"

definition Success :: "json option \<Rightarrow> Response" where
  "Success data = \<lparr>Resp_Code = 200, Resp_Msg = Msg_success, Resp_Data = data\<rparr>"

definition Error :: "message \<Rightarrow> Response" where
  "Error msg = \<lparr>Resp_Code = 500, Resp_Msg = msg, Resp_Data = None\<rparr>"

definition NewPageData :: "json \<Rightarrow> int \<Rightarrow> 64 word \<Rightarrow> 64 word \<Rightarrow> json" where
  "NewPageData items total_rows page pageSize =
     JObject [(''list'', items), (''total'', JInt total_rows), (''page'', JInt (sint page)),
              (''pageSize'', JInt (sint pageSize))]"

text \<open>The JSON of a \<open>models.User\<close>, field by field from the struct tags: \<open>Password\<close> has the
  tag \<open>json:"-"\<close> and is skipped, \<open>role\<close> is \<open>omitempty\<close> and the pointer is \<open>nil\<close>.\<close>

definition user_json :: "User \<Rightarrow> json" where
  "user_json u =
     JObject [(''id'', JInt (int (User_ID u))),
              (''username'', JString (User_Username u)),
              (''realname'', JString (User_Realname u)),
              (''email'', JString (User_Email u)),
              (''status'', JInt (User_Status u)),
              (''created_at'', JTime (User_CreatedAt u)),
              (''updated_at'', JTime (User_UpdatedAt u)),
              (''role_id'', (case User_RoleID u of None \<Rightarrow> JNull | Some r \<Rightarrow> JInt (int r)))]"





text \<open>\<open>UserController.GetList\<close>, \<open>GetDetail\<close> and \<open>Create\<close>. The query parameters and the path
  parameter arrive parsed. The \<open>email\<close> rule of the validator is a parameter.\<close>

definition UserController_GetList :: "DB \<Rightarrow> 64 word \<Rightarrow> 64 word \<Rightarrow> nat \<times> Response" where
  "UserController_GetList db page pageSize =
     (case GetUserList db page pageSize of
        Inl err \<Rightarrow> (200, Error Msg_user_list_failed)
      | Inr (us, total_rows) \<Rightarrow>
          (200, Success (Some (NewPageData (JArray (map user_json us)) total_rows page pageSize))))"

definition UserController_GetDetail :: "DB \<Rightarrow> nat \<Rightarrow> nat \<times> Response" where
  "UserController_GetDetail db id' =
     (case GetUserByID db id' of
        Inl err \<Rightarrow> (200, Error (Msg_error err))
      | Inr user \<Rightarrow> (200, Success (Some (user_json user))))"

record CreateUserRequest =
  Create_Username :: string
  Create_Password :: string
  Create_Realname :: string
  Create_Email :: string

definition bind_CreateUserRequest ::
  "(string \<Rightarrow> bool) \<Rightarrow> CreateUserRequest option \<Rightarrow> CreateUserRequest option" where
  "bind_CreateUserRequest is_email body =
     (case body of
        None \<Rightarrow> None
      | Some req \<Rightarrow>
          if Create_Username req = [] \<or> Create_Password req = [] \<or> Create_Realname req = [] \<or>
             Create_Email req = [] \<or> \<not> is_email (Create_Email req)
          then None else Some req)"

definition UserController_Create ::
  "(string \<Rightarrow> bool) \<Rightarrow> bcrypt \<Rightarrow> nat \<Rightarrow> DB \<Rightarrow> CreateUserRequest option \<Rightarrow> (nat \<times> Response) \<times> DB" where
  "UserController_Create is_email bc now db body =
     (case bind_CreateUserRequest is_email body of
        None \<Rightarrow> ((400, Error Msg_param_error), db)
      | Some req \<Rightarrow>
          (let user = \<lparr>User_ID = 0, User_Username = Create_Username req,
                       User_Password = Create_Password req, User_Realname = Create_Realname req,
                       User_Email = Create_Email req, User_Status = 1, User_CreatedAt = 0,
                       User_UpdatedAt = 0, User_RoleID = None\<rparr>
           in case CreateUser bc now db user of
                (Inl err, db') \<Rightarrow> ((200, Error (Msg_error err)), db')
              | (Inr user', db') \<Rightarrow> ((200, Success (Some (user_json user'))), db')))"

text \<open>\<open>UserController.Update\<close> and \<open>RoleController.Update\<close>: the map of updates gets an entry for
  each string field of the request that is not empty (and for \<open>status\<close> when the pointer is
  not \<open>nil\<close>).\<close>

record UpdateUserRequest =
  Update_Username :: string
  Update_Realname :: string
  Update_Email :: string
  Update_Status :: "int option"

definition user_updates :: "UpdateUserRequest \<Rightarrow> updates" where
  "user_updates req =
     (let m0 = fmempty;
          m1 = (if Update_Username req \<noteq> [] then fmupd ''username'' (VString (Update_Username req)) m0 else m0);
          m2 = (if Update_Realname req \<noteq> [] then fmupd ''realname'' (VString (Update_Realname req)) m1 else m1);
          m3 = (if Update_Email req \<noteq> [] then fmupd ''email'' (VString (Update_Email req)) m2 else m2)
      in case Update_Status req of None \<Rightarrow> m3 | Some status \<Rightarrow> fmupd ''status'' (VInt status) m3)"

definition UserController_Update ::
  "bcrypt \<Rightarrow> nat \<Rightarrow> DB \<Rightarrow> nat \<Rightarrow> UpdateUserRequest option \<Rightarrow> (nat \<times> Response) \<times> DB" where
  "UserController_Update bc now db id' body =
     (case body of
        None \<Rightarrow> ((400, Error Msg_param_error), db)
      | Some req \<Rightarrow>
          (case UpdateUser bc now db id' (user_updates req) of
             (Inl err, db') \<Rightarrow> ((200, Error (Msg_error err)), db')
           | (Inr u, db') \<Rightarrow> ((200, Success None), db')))"

record UpdateRoleRequest =
  Update_Name :: string
  Update_Code :: string
  Update_Description :: string

definition role_updates :: "UpdateRoleRequest \<Rightarrow> updates" where
  "role_updates req =
     (let m0 = fmempty;
          m1 = (if Update_Name req \<noteq> [] then fmupd ''name'' (VString (Update_Name req)) m0 else m0);
          m2 = (if Update_Code req \<noteq> [] then fmupd ''code'' (VString (Update_Code req)) m1 else m1)
      in if Update_Description req \<noteq> [] then fmupd ''description'' (VString (Update_Description req)) m2 else m2)"

definition RoleController_Update ::
  "nat \<Rightarrow> DB \<Rightarrow> nat \<Rightarrow> UpdateRoleRequest option \<Rightarrow> (nat \<times> Response) \<times> DB" where
  "RoleController_Update now db id' body =
     (case body of
        None \<Rightarrow> ((400, Error Msg_param_error), db)
      | Some req \<Rightarrow>
          (case UpdateRole now db id' (role_updates req) of
             (Inl err, db') \<Rightarrow> ((200, Error (Msg_error err)), db')
           | (Inr u, db') \<Rightarrow> ((200, Success None), db')))"

text \<open>\<open>RoleController.Delete\<close>.\<close>

definition RoleController_Delete :: "DB \<Rightarrow> nat \<Rightarrow> (nat \<times> Response) \<times> DB" where
  "RoleController_Delete db id' =
     (case DeleteRole db id' of
        (Inl err, db') \<Rightarrow> ((200, Error Msg_role_delete_failed), db')
      | (Inr u, db') \<Rightarrow> ((200, Success None), db'))"

section \<open>Notions of the statements and proofs, and data for the examples\<close>

text \<open>What the second loop does to a node, in closed form: \<open>kids perms k\<close> are the codes of the
  permissions whose non-empty parent code is \<open>k\<close>, in the order of the list, and \<open>adopt\<close>
  appends them to the children of the node under \<open>k\<close>.\<close>

definition kids :: "Permission list \<Rightarrow> ptr \<Rightarrow> ptr list" where
  "kids perms k = (if k = [] then [] else map Perm_Code (filter (\<lambda>p. Perm_ParentCode p = k) perms))"

definition adopt :: "Permission list \<Rightarrow> ptr \<Rightarrow> PermissionTree \<Rightarrow> PermissionTree" where
  "adopt perms k node =
     node\<lparr>Tree_Children := Tree_Children node @ kids perms k,
          Tree_HasChildren := (Tree_HasChildren node \<or> kids perms k \<noteq> [])\<rparr>"

text \<open>Notions for the proofs about \<open>sortChildren\<close>: two heaps have the same shape when they
  have the same nodes up to the order of each children slice; a heap is closed when every
  child pointer is a key of it; a node is sorted when its children slice is ordered; a
  node is bounded by \<open>n\<close> when no chain of child pointers from it has \<open>n\<close> nodes.\<close>

definition node_perm :: "PermissionTree \<Rightarrow> PermissionTree \<Rightarrow> bool" where
  "node_perm a b = (b = a\<lparr>Tree_Children := Tree_Children b\<rparr> \<and> mset (Tree_Children b) = mset (Tree_Children a))"

definition same_shape :: "heap \<Rightarrow> heap \<Rightarrow> bool" where
  "same_shape h h' = (\<forall>k. rel_option node_perm (h k) (h' k))"



fun bounded :: "heap \<Rightarrow> nat \<Rightarrow> ptr \<Rightarrow> bool" where
  "bounded h 0 k = False"
| "bounded h (Suc n) k =
     (case h k of None \<Rightarrow> False | Some node \<Rightarrow> (\<forall>c\<in>set (Tree_Children node). bounded h n c))"

text \<open>\<open>lvl perms d\<close>: the codes of the permissions that reach an empty parent code in \<open>d\<close>
  steps along the parent codes. \<open>linked perms\<close> is the heap after the two loops.\<close>

fun lvl :: "Permission list \<Rightarrow> nat \<Rightarrow> ptr set" where
  "lvl ps 0 = {Perm_Code p | p. p \<in> set ps \<and> Perm_ParentCode p = []}"
| "lvl ps (Suc d) =
     {Perm_Code p | p. p \<in> set ps \<and> Perm_ParentCode p \<noteq> [] \<and> Perm_ParentCode p \<in> lvl ps d}"

definition linked :: "Permission list \<Rightarrow> heap" where
  "linked ps = (\<lambda>k. map_option (adopt ps k) (create_nodes ps k))"



text \<open>Permissions for the examples: two rows of the seed data, a row whose parent code names no
  row, a row below that one, and a row whose code is the empty string.\<close>

definition demo_system :: Permission where
  "demo_system = \<lparr>Perm_ID = 1, Perm_Name = ''System'', Perm_Code = ''system'', Perm_ParentCode = '''',
     Perm_Path = ''/system'', Perm_Type = 1, Perm_Sort = 0, Perm_Description = ''System module'',
     Perm_CreatedAt = 0, Perm_UpdatedAt = 0\<rparr>"


definition demo_orphan :: Permission where
  "demo_orphan = \<lparr>Perm_ID = 3, Perm_Name = ''Reports'', Perm_Code = ''report'', Perm_ParentCode = ''audit'',
     Perm_Path = ''/report'', Perm_Type = 1, Perm_Sort = 2, Perm_Description = ''Reports'',
     Perm_CreatedAt = 0, Perm_UpdatedAt = 0\<rparr>"

definition demo_orphan_child :: Permission where
  "demo_orphan_child = \<lparr>Perm_ID = 4, Perm_Name = ''Export'', Perm_Code = ''report:export'', Perm_ParentCode = ''report'',
     Perm_Path = [], Perm_Type = 2, Perm_Sort = 1, Perm_Description = ''Export reports'',
     Perm_CreatedAt = 0, Perm_UpdatedAt = 0\<rparr>"



text \<open>The codes of the permissions with an empty parent code, in the order of the list.\<close>

definition root_codes :: "Permission list \<Rightarrow> ptr list" where
  "root_codes ps = map Perm_Code (filter (\<lambda>p. Perm_ParentCode p = []) ps)"

text \<open>A database for the examples: the seeded administrator, one role, one permission, and the
  role holding the permission.\<close>

definition demo_admin :: User where
  "demo_admin = \<lparr>User_ID = 1, User_Username = ''admin'', User_Password = ''$2a$10$admin123'',
     User_Realname = ''Administrator'', User_Email = ''admin@example.com'', User_Status = 1,
     User_CreatedAt = 5, User_UpdatedAt = 5, User_RoleID = None\<rparr>"

definition demo_role :: Role where
  "demo_role = \<lparr>Role_ID = 1, Role_Name = ''Super administrator'', Role_Code = ''admin'',
     Role_Description = ''System administrator'', Role_CreatedAt = 5, Role_UpdatedAt = 5\<rparr>"

definition demo_permission :: Permission where
  "demo_permission = \<lparr>Perm_ID = 1, Perm_Name = ''System'', Perm_Code = ''system'', Perm_ParentCode = '''',
     Perm_Path = ''/system'', Perm_Type = 1, Perm_Sort = 0, Perm_Description = ''System module'',
     Perm_CreatedAt = 5, Perm_UpdatedAt = 5\<rparr>"

definition demo_db :: DB where
  "demo_db = \<lparr>users = [demo_admin], users_seq = 1, roles = [demo_role],
     permissions = [demo_permission], role_permissions = [(1, 1)]\<rparr>"

text \<open>A stand-in for bcrypt in the examples: it refuses passwords of more than 72 bytes as
  the library does, and its hash is the password behind a fixed prefix.\<close>

definition demo_bcrypt :: bcrypt where
  "demo_bcrypt =
     \<lparr>GenerateFromPassword = (\<lambda>pw. if 72 < length pw then Inl ErrPasswordTooLong else Inr (''$2a$10$'' @ pw)),
      CompareHashAndPassword = (\<lambda>h pw. h = ''$2a$10$'' @ pw)\<rparr>"

text \<open>Fault scenarios for the examples: no database call fails; the \<open>DELETE\<close> fails.\<close>

definition no_faults :: "step \<Rightarrow> bool" where
  "no_faults s = False"

definition delete_fault :: "step \<Rightarrow> bool" where
  "delete_fault s = (s = StepDelete)"

text \<open>The state \<open>DeletePermission\<close> commits: the join rows of the permission and its row are gone.\<close>

definition permission_deleted :: "DB \<Rightarrow> nat \<Rightarrow> DB" where
  "permission_deleted db id' =
     db\<lparr>role_permissions := filter (\<lambda>(role_id, permission_id). permission_id \<noteq> id') (role_permissions db),
        permissions := filter (\<lambda>p. Perm_ID p \<noteq> id') (permissions db)\<rparr>"






text \<open>An instance of the package for the examples: one fixed salt, passwords of more than 72
  bytes refused, and in place of the encryption the first 31 bytes of the key with a dot for
  the NUL byte.\<close>

definition demo_salt_for :: "string \<Rightarrow> error + string" where
  "demo_salt_for password =
     (if 72 < length password then Inl ErrPasswordTooLong else Inr ''abcdefghijklmnopqrstuv'')"

definition demo_hash_of :: "nat \<Rightarrow> string \<Rightarrow> string \<Rightarrow> error + string" where
  "demo_hash_of cost salt key = Inr (map (\<lambda>c. if c = CHR 0x00 then CHR ''.'' else c) (take 31 key))"

definition demo_package :: bcrypt where
  "demo_package = bcrypt_package demo_salt_for demo_hash_of"

text \<open>A new user and an update map for the examples. The map has the password under the
  column name and under the name of the struct field, and the status as a text.\<close>

definition demo_bob :: User where
  "demo_bob = \<lparr>User_ID = 0, User_Username = ''bob'', User_Password = ''secret'',
     User_Realname = ''Bob'', User_Email = ''bob@example.com'', User_Status = 1,
     User_CreatedAt = 0, User_UpdatedAt = 0, User_RoleID = None\<rparr>"

definition demo_password_update :: updates where
  "demo_password_update =
     fmupd ''password'' (VString ''newpass'')
       (fmupd ''Password'' (VString ''plain'') (fmupd ''status'' (VString ''0'') fmempty))"

text \<open>A password that the salt source of the example refuses.\<close>

definition demo_long_update :: updates where
  "demo_long_update = fmupd ''password'' (VString (replicate 73 CHR ''x'')) fmempty"

text \<open>Notions for claim C9: the keys of a JSON object; a user row with its password blanked;
  two databases that differ in the stored passwords at most; two bcrypt outcomes that
  succeed and fail alike, whatever the hashes are.\<close>

definition json_keys :: "json \<Rightarrow> string list" where
  "json_keys j = (case j of JObject kvs \<Rightarrow> map fst kvs | _ \<Rightarrow> [])"

definition hide_password :: "User \<Rightarrow> User" where
  "hide_password u = u\<lparr>User_Password := []\<rparr>"

definition hide_passwords :: "DB \<Rightarrow> DB" where
  "hide_passwords db = db\<lparr>users := map hide_password (users db)\<rparr>"

definition same_but_passwords :: "DB \<Rightarrow> DB \<Rightarrow> bool" where
  "same_but_passwords db db' = (hide_passwords db = hide_passwords db')"

definition same_outcome :: "bcrypt \<Rightarrow> bcrypt \<Rightarrow> bool" where
  "same_outcome bc bc' =
     (\<forall>pw. map_sum id (\<lambda>h. ()) (GenerateFromPassword bc pw) = map_sum id (\<lambda>h. ()) (GenerateFromPassword bc' pw))"

text \<open>The example database with another hash stored for the administrator, and an e-mail
  rule for the examples.\<close>

definition demo_db_rehashed :: DB where
  "demo_db_rehashed = demo_db\<lparr>users := [demo_admin\<lparr>User_Password := ''$2a$10$other''\<rparr>]\<rparr>"

definition demo_is_email :: "string \<Rightarrow> bool" where
  "demo_is_email s = (CHR ''@'' \<in> set s)"

text \<open>Notion for claim C10: a string column against the field the request sent for it. A
  field sent empty keeps the stored value, and the column is empty after the update only
  if it was empty before.\<close>

definition kept_unless_sent :: "string \<Rightarrow> string \<Rightarrow> string \<Rightarrow> bool" where
  "kept_unless_sent sent old new = ((sent = [] \<longrightarrow> new = old) \<and> (new = [] \<longrightarrow> old = []))"

text \<open>Update requests for the examples: a new real name with the other fields left out, and
  a new role name.\<close>

definition demo_update :: UpdateUserRequest where
  "demo_update = \<lparr>Update_Username = [], Update_Realname = ''Root'', Update_Email = [], Update_Status = None\<rparr>"

definition demo_role_update :: UpdateRoleRequest where
  "demo_role_update = \<lparr>Update_Name = ''Owner'', Update_Code = [], Update_Description = []\<rparr>"

section \<open>Proofs\<close>

subsection \<open>sort.Slice returns an ordered permutation\<close>

lemma mset_sift: "mset (sift lt x rs) = add_mset x (mset rs)"
  by (induction rs) auto

lemma mset_foldl_sift: "mset (foldl (\<lambda>rs x. sift lt x rs) acc xs) = mset acc + mset xs"
  by (induction xs arbitrary: acc) (auto simp: mset_sift)

lemma mset_sort_Slice: "mset (sort_Slice lt xs) = mset xs"
  by (simp add: sort_Slice_def mset_foldl_sift)

lemma set_sort_Slice: "set (sort_Slice lt xs) = set xs"
  using mset_sort_Slice[of lt xs] by (metis set_mset_mset)





subsection \<open>The two loops of GetPermissionTrees in closed form\<close>

lemma kids_Nil [simp]: "kids [] k = []"
  by (simp add: kids_def)

lemma adopt_Nil [simp]: "adopt [] k node = node"
  by (simp add: adopt_def)

lemma kids_Cons:
  "kids (p # ps) k = (if k \<noteq> [] \<and> Perm_ParentCode p = k then Perm_Code p # kids ps k else kids ps k)"
  by (simp add: kids_def)

lemma link_node_adopt:
  "link_node (m, rs) p =
     (\<lambda>k. map_option (adopt [p] k) (m k),
      rs @ map Perm_Code (filter (\<lambda>p. Perm_ParentCode p = []) [p]))"
proof -
  have "fst (link_node (m, rs) p) k = map_option (adopt [p] k) (m k)" for k
    by (cases "m k") (auto simp: adopt_def kids_def split: option.splits)
  moreover have "snd (link_node (m, rs) p) = rs @ map Perm_Code (filter (\<lambda>p. Perm_ParentCode p = []) [p])"
    by (auto split: option.splits)
  ultimately show ?thesis
    by (metis (no_types, lifting) ext prod.collapse)
qed

lemma adopt_adopt: "adopt ps k (adopt [p] k node) = adopt (p # ps) k node"
  by (auto simp: adopt_def kids_Cons)

lemma foldl_link_node:
  "foldl link_node (m, rs) ps =
     (\<lambda>k. map_option (adopt ps k) (m k),
      rs @ map Perm_Code (filter (\<lambda>p. Perm_ParentCode p = []) ps))"
proof (induction ps arbitrary: m rs)
  case Nil
  show ?case by (simp add: fun_eq_iff option.map_ident)
next
  case (Cons p ps)
  have "foldl link_node (m, rs) (p # ps) =
        foldl link_node (\<lambda>k. map_option (adopt [p] k) (m k),
          rs @ map Perm_Code (filter (\<lambda>p. Perm_ParentCode p = []) [p])) ps"
    by (simp only: foldl.simps link_node_adopt)
  also have "\<dots> = (\<lambda>k. map_option (adopt (p # ps) k) (m k),
      rs @ map Perm_Code (filter (\<lambda>p. Perm_ParentCode p = []) (p # ps)))"
    by (simp add: Cons.IH option.map_comp comp_def adopt_adopt)
  finally show ?case .
qed

lemma link_nodes_eq:
  "link_nodes m ps =
     (\<lambda>k. map_option (adopt ps k) (m k), map Perm_Code (filter (\<lambda>p. Perm_ParentCode p = []) ps))"
  by (simp add: link_nodes_def foldl_link_node)

lemma foldl_create_other:
  "k \<notin> Perm_Code ` set ps \<Longrightarrow>
   foldl (\<lambda>treeMap perm. treeMap(Perm_Code perm \<mapsto> new_node perm)) m ps k = m k"
  by (induction ps arbitrary: m) auto

lemma foldl_create_distinct:
  "distinct (map Perm_Code ps) \<Longrightarrow> p \<in> set ps \<Longrightarrow>
   foldl (\<lambda>treeMap perm. treeMap(Perm_Code perm \<mapsto> new_node perm)) m ps (Perm_Code p) = Some (new_node p)"
proof (induction ps arbitrary: m)
  case Nil
  then show ?case by simp
next
  case (Cons a ps)
  show ?case
  proof (cases "p = a")
    case True
    have "Perm_Code a \<notin> Perm_Code ` set ps" using Cons.prems by simp
    then have "foldl (\<lambda>treeMap perm. treeMap(Perm_Code perm \<mapsto> new_node perm)) (m(Perm_Code a \<mapsto> new_node a)) ps (Perm_Code a)
       = (m(Perm_Code a \<mapsto> new_node a)) (Perm_Code a)"
      by (rule foldl_create_other)
    also have "\<dots> = Some (new_node a)" by simp
    finally show ?thesis using True by (simp only: foldl.simps)
  next
    case False
    with Cons show ?thesis by auto
  qed
qed

lemma create_nodes_Some:
  "distinct (map Perm_Code ps) \<Longrightarrow> p \<in> set ps \<Longrightarrow> create_nodes ps (Perm_Code p) = Some (new_node p)"
  by (simp add: create_nodes_def foldl_create_distinct)

lemma create_nodes_None: "k \<notin> Perm_Code ` set ps \<Longrightarrow> create_nodes ps k = None"
  by (simp add: create_nodes_def foldl_create_other)

lemma create_nodes_dom: "dom (create_nodes ps) = Perm_Code ` set ps"
proof -
  have "dom (foldl (\<lambda>treeMap perm. treeMap(Perm_Code perm \<mapsto> new_node perm)) m ps) = dom m \<union> Perm_Code ` set ps" for m
    by (induction ps arbitrary: m) auto
  then show ?thesis by (simp add: create_nodes_def)
qed

subsection \<open>Heaps of the same shape\<close>

lemma node_perm_refl: "node_perm a a"
  by (simp add: node_perm_def)

lemma node_permE: "node_perm a b \<Longrightarrow> \<exists>cs. b = a\<lparr>Tree_Children := cs\<rparr> \<and> mset cs = mset (Tree_Children a)"
  unfolding node_perm_def by (rule exI[of _ "Tree_Children b"]) simp

lemma node_permI: "mset cs = mset (Tree_Children a) \<Longrightarrow> node_perm a (a\<lparr>Tree_Children := cs\<rparr>)"
  by (simp add: node_perm_def)

lemma node_perm_trans: "node_perm a b \<Longrightarrow> node_perm b c \<Longrightarrow> node_perm a c"
proof -
  assume "node_perm a b" "node_perm b c"
  then obtain cs cs' where "b = a\<lparr>Tree_Children := cs\<rparr>" "mset cs = mset (Tree_Children a)"
    "c = b\<lparr>Tree_Children := cs'\<rparr>" "mset cs' = mset (Tree_Children b)"
    by (blast dest: node_permE)
  then show ?thesis by (simp add: node_perm_def)
qed

lemma same_shape_refl: "same_shape h h"
  by (simp add: same_shape_def option.rel_refl node_perm_refl)

lemma same_shape_trans: "same_shape h1 h2 \<Longrightarrow> same_shape h2 h3 \<Longrightarrow> same_shape h1 h3"
  unfolding same_shape_def
proof (intro allI)
  fix k
  assume "\<forall>k. rel_option node_perm (h1 k) (h2 k)" "\<forall>k. rel_option node_perm (h2 k) (h3 k)"
  then have "rel_option node_perm (h1 k) (h2 k)" "rel_option node_perm (h2 k) (h3 k)" by auto
  then show "rel_option node_perm (h1 k) (h3 k)"
    by (cases "h1 k"; cases "h2 k"; cases "h3 k") (auto intro: node_perm_trans)
qed

lemma same_shape_upd:
  "h k = Some node \<Longrightarrow> mset cs = mset (Tree_Children node) \<Longrightarrow>
   same_shape h (h(k \<mapsto> node\<lparr>Tree_Children := cs\<rparr>))"
  by (auto simp: same_shape_def node_permI node_perm_refl option.rel_refl)

lemma same_shape_None: "same_shape h h' \<Longrightarrow> (h' k = None) = (h k = None)"
  unfolding same_shape_def by (erule allE[of _ k]) (cases "h k"; cases "h' k"; simp)


lemma same_shape_Some:
  "same_shape h h' \<Longrightarrow> h k = Some a \<Longrightarrow> \<exists>b. h' k = Some b \<and> node_perm a b"
  unfolding same_shape_def by (erule allE[of _ k]) (cases "h' k"; simp)

lemma same_shape_Some':
  "same_shape h h' \<Longrightarrow> h' k = Some b \<Longrightarrow> \<exists>a. h k = Some a \<and> node_perm a b"
  unfolding same_shape_def by (erule allE[of _ k]) (cases "h k"; simp)

lemma node_perm_set: "node_perm a b \<Longrightarrow> set (Tree_Children b) = set (Tree_Children a)"
  unfolding node_perm_def by (blast dest: mset_eq_setD)







lemma sortChildren_shape: "sortChildren n h ns = Some h' \<Longrightarrow> same_shape h h'"
proof (induction n h ns arbitrary: h' rule: sortChildren.induct)
  case (1 h nodes)
  then show ?case by simp
next
  case (2 n h)
  then show ?case by (simp add: same_shape_refl)
next
  case (3 n h k nodes)
  from "3.prems" obtain node where node: "h k = Some node" by (auto split: option.splits)
  show ?case
  proof (cases "Tree_Children node = []")
    case True
    with "3.prems" node have "sortChildren (Suc n) h nodes = Some h'" by simp
    with "3.IH"(3)[OF node] True show ?thesis by simp
  next
    case False
    define cs where "cs = sort_Slice (ptr_less h) (Tree_Children node)"
    define h0 where "h0 = h(k \<mapsto> node\<lparr>Tree_Children := cs\<rparr>)"
    from "3.prems" node False obtain h1 where
      h1: "sortChildren n h0 cs = Some h1" and h': "sortChildren (Suc n) h1 nodes = Some h'"
      by (auto simp: cs_def h0_def Let_def split: option.splits)
    have "same_shape h h0" unfolding h0_def
      using node by (intro same_shape_upd) (simp_all add: cs_def mset_sort_Slice)
    moreover have "same_shape h0 h1"
      using "3.IH"(1)[OF node False cs_def h0_def h1] .
    moreover have "same_shape h1 h'"
      using "3.IH"(2)[OF node False cs_def h0_def h1 h'] .
    ultimately show ?thesis by (blast intro: same_shape_trans)
  qed
qed

subsection \<open>sortChildren orders what it reaches, and returns on bounded nodes\<close>



lemma in_forest_shape:
  assumes "in_forest h rs k" and "same_shape h h'"
  shows "in_forest h' rs k"
  using assms(1)
proof (induction rule: in_forest.induct)
  case (root k)
  then show ?case by (rule in_forest.root)
next
  case (child k node c)
  from same_shape_Some[OF assms(2) child.hyps(2)] obtain b where "h' k = Some b" "node_perm node b"
    by blast
  with child show ?case by (auto intro: in_forest.child simp: node_perm_set)
qed


lemma in_forest_trans:
  "in_forest h rs' c \<Longrightarrow> \<forall>r\<in>set rs'. in_forest h rs r \<Longrightarrow> in_forest h rs c"
  by (induction rule: in_forest.induct) (auto intro: in_forest.child)






lemma bounded_shape: "same_shape h h' \<Longrightarrow> bounded h' n k = bounded h n k"
proof (induction n arbitrary: k)
  case 0
  show ?case by simp
next
  case (Suc n)
  show ?case
  proof (cases "h k")
    case None
    with same_shape_None[OF Suc.prems, of k] show ?thesis by simp
  next
    case (Some a)
    from same_shape_Some[OF Suc.prems Some] obtain b where "h' k = Some b" "node_perm a b" by blast
    with Some Suc.IH[OF Suc.prems] show ?thesis by (simp add: node_perm_set)
  qed
qed

lemma sortChildren_returns:
  "\<forall>k\<in>set ns. bounded h n k \<Longrightarrow> \<exists>h'. sortChildren (Suc n) h ns = Some h'"
proof (induction n arbitrary: h ns)
  case 0
  then have "ns = []" by (cases ns) auto
  then show ?case by simp
next
  case (Suc n)
  from Suc.prems show ?case
  proof (induction ns arbitrary: h)
    case Nil
    show ?case by simp
  next
    case (Cons k ns)
    from Cons.prems obtain node where node: "h k = Some node"
      and kids: "\<forall>c\<in>set (Tree_Children node). bounded h n c"
      by (auto split: option.splits)
    show ?case
    proof (cases "Tree_Children node = []")
      case True
      with node Cons.IH[of h] Cons.prems show ?thesis by simp
    next
      case False
      define cs where "cs = sort_Slice (ptr_less h) (Tree_Children node)"
      define h0 where "h0 = h(k \<mapsto> node\<lparr>Tree_Children := cs\<rparr>)"
      have sh0: "same_shape h h0" unfolding h0_def
        using node by (intro same_shape_upd) (simp_all add: cs_def mset_sort_Slice)
      have "\<forall>c\<in>set cs. bounded h0 n c"
        using kids by (simp add: bounded_shape[OF sh0] cs_def set_sort_Slice)
      from Suc.IH[OF this] obtain h1 where h1: "sortChildren (Suc n) h0 cs = Some h1" by blast
      have sh1: "same_shape h h1" using same_shape_trans[OF sh0 sortChildren_shape[OF h1]] .
      have "\<forall>k\<in>set ns. bounded h1 (Suc n) k"
        using Cons.prems by (simp only: bounded_shape[OF sh1]) simp
      from Cons.IH[OF this] obtain h' where "sortChildren (Suc (Suc n)) h1 ns = Some h'" by blast
      with node False h1 show ?thesis by (simp add: cs_def h0_def Let_def)
    qed
  qed
qed

lemma sortChildren_more_fuel:
  "sortChildren n h ns = Some h' \<Longrightarrow> n \<le> m \<Longrightarrow> sortChildren m h ns = Some h'"
proof (induction n h ns arbitrary: h' m rule: sortChildren.induct)
  case (1 h nodes)
  then show ?case by simp
next
  case (2 n h)
  then obtain m' where "m = Suc m'" by (cases m) auto
  with 2 show ?case by simp
next
  case (3 n h k nodes)
  from "3.prems"(2) obtain m' where m: "m = Suc m'" "n \<le> m'" by (cases m) auto
  from "3.prems"(1) obtain node where node: "h k = Some node" by (auto split: option.splits)
  show ?case
  proof (cases "Tree_Children node = []")
    case True
    with "3.prems" node have "sortChildren (Suc n) h nodes = Some h'" by simp
    from "3.IH"(3)[OF node _ this "3.prems"(2)] True node m show ?thesis by simp
  next
    case False
    define cs where "cs = sort_Slice (ptr_less h) (Tree_Children node)"
    define h0 where "h0 = h(k \<mapsto> node\<lparr>Tree_Children := cs\<rparr>)"
    from "3.prems"(1) node False obtain h1 where
      h1: "sortChildren n h0 cs = Some h1" and h': "sortChildren (Suc n) h1 nodes = Some h'"
      by (auto simp: cs_def h0_def Let_def split: option.splits)
    have a: "sortChildren m' h0 cs = Some h1"
      using "3.IH"(1)[OF node False cs_def h0_def h1 m(2)] .
    have b: "sortChildren (Suc m') h1 nodes = Some h'"
      using "3.IH"(2)[OF node False cs_def h0_def h1 h'] "3.prems"(2) m(1) by simp
    from node False a b show ?thesis unfolding m(1) by (simp add: cs_def h0_def Let_def)
  qed
qed

subsection \<open>No chain of children from a root is longer than the list\<close>

lemma code_inj:
  "distinct (map Perm_Code ps) \<Longrightarrow> p \<in> set ps \<Longrightarrow> q \<in> set ps \<Longrightarrow> Perm_Code p = Perm_Code q \<Longrightarrow> p = q"
  by (auto simp: distinct_map dest: inj_onD)

lemma lvl_codes: "k \<in> lvl ps d \<Longrightarrow> k \<in> Perm_Code ` set ps"
  by (cases d) auto

lemma lvl_unique:
  "distinct (map Perm_Code ps) \<Longrightarrow> k \<in> lvl ps i \<Longrightarrow> k \<in> lvl ps j \<Longrightarrow> i = j"
proof (induction i arbitrary: j k)
  case 0
  show ?case
  proof (cases j)
    case 0
    then show ?thesis by simp
  next
    case (Suc j')
    with "0.prems" obtain p q where "p \<in> set ps" "q \<in> set ps" "Perm_Code p = k" "Perm_Code q = k"
      "Perm_ParentCode p = []" "Perm_ParentCode q \<noteq> []" by auto
    with code_inj[OF "0.prems"(1), of p q] show ?thesis by auto
  qed
next
  case (Suc i)
  from Suc.prems obtain p where p: "p \<in> set ps" "Perm_Code p = k" "Perm_ParentCode p \<noteq> []"
    "Perm_ParentCode p \<in> lvl ps i" by auto
  show ?case
  proof (cases j)
    case 0
    with Suc.prems obtain q where "q \<in> set ps" "Perm_Code q = k" "Perm_ParentCode q = []" by auto
    with p code_inj[OF Suc.prems(1), of p q] show ?thesis by auto
  next
    case (Suc j')
    with Suc.prems obtain q where q: "q \<in> set ps" "Perm_Code q = k" "Perm_ParentCode q \<in> lvl ps j'" by auto
    with p code_inj[OF Suc.prems(1), of p q] have "Perm_ParentCode p \<in> lvl ps j'" by auto
    from Suc.IH[OF Suc.prems(1) p(4) this] Suc show ?thesis by simp
  qed
qed

lemma lvl_below: "k \<in> lvl ps d \<Longrightarrow> i \<le> d \<Longrightarrow> lvl ps i \<noteq> {}"
proof (induction d arbitrary: k)
  case 0
  then show ?case by auto
next
  case (Suc d)
  show ?case
  proof (cases "i = Suc d")
    case True
    with Suc.prems show ?thesis by auto
  next
    case False
    with Suc.prems have "i \<le> d" by simp
    moreover from Suc.prems(1) obtain k' where "k' \<in> lvl ps d" by auto
    ultimately show ?thesis using Suc.IH by blast
  qed
qed

lemma lvl_depth:
  assumes "distinct (map Perm_Code ps)" and "k \<in> lvl ps d"
  shows "d < length ps"
proof -
  have "\<forall>i\<in>{..d}. \<exists>c. c \<in> lvl ps i" using lvl_below[OF assms(2)] by auto
  then obtain f where f: "\<forall>i\<in>{..d}. f i \<in> lvl ps i" by metis
  have "inj_on f {..d}"
  proof (rule inj_onI)
    fix i j assume "i \<in> {..d}" "j \<in> {..d}" "f i = f j"
    with f have "f i \<in> lvl ps i" "f i \<in> lvl ps j" by (metis, metis)
    then show "i = j" by (rule lvl_unique[OF assms(1)])
  qed
  then have "card (f ` {..d}) = Suc d" by (simp add: card_image)
  moreover have "f ` {..d} \<subseteq> Perm_Code ` set ps" using f lvl_codes by blast
  then have "card (f ` {..d}) \<le> card (Perm_Code ` set ps)" by (intro card_mono) auto
  moreover have "card (Perm_Code ` set ps) \<le> length ps"
    by (metis card_image_le card_length le_trans List.finite_set)
  ultimately show ?thesis by simp
qed

lemma link_nodes_linked:
  "link_nodes (create_nodes ps) ps = (linked ps, map Perm_Code (filter (\<lambda>p. Perm_ParentCode p = []) ps))"
  by (simp add: link_nodes_eq linked_def)

lemma set_kids: "set (kids ps k) = {Perm_Code p | p. p \<in> set ps \<and> Perm_ParentCode p = k \<and> k \<noteq> []}"
  by (auto simp: kids_def)

lemma linked_Some:
  "distinct (map Perm_Code ps) \<Longrightarrow> q \<in> set ps \<Longrightarrow>
   linked ps (Perm_Code q) =
     Some ((new_node q)\<lparr>Tree_Children := kids ps (Perm_Code q), Tree_HasChildren := (kids ps (Perm_Code q) \<noteq> [])\<rparr>)"
  by (simp add: linked_def create_nodes_Some adopt_def new_node_def)

lemma linked_dom: "dom (linked ps) = Perm_Code ` set ps"
  using create_nodes_dom[of ps] by (auto simp: linked_def dom_def)


lemma linked_bounded:
  "distinct (map Perm_Code ps) \<Longrightarrow> k \<in> lvl ps d \<Longrightarrow> d + n = length ps \<Longrightarrow> bounded (linked ps) n k"
proof (induction n arbitrary: d k)
  case 0
  with lvl_depth[OF "0.prems"(1,2)] show ?case by simp
next
  case (Suc n)
  from lvl_codes[OF Suc.prems(2)] obtain q where q: "q \<in> set ps" "k = Perm_Code q" by auto
  have "bounded (linked ps) n c" if "c \<in> set (kids ps k)" for c
  proof -
    from that obtain p where "p \<in> set ps" "Perm_ParentCode p = k" "k \<noteq> []" "c = Perm_Code p"
      by (auto simp: set_kids)
    with Suc.prems(2) have "c \<in> lvl ps (Suc d)" by auto
    with Suc.IH[OF Suc.prems(1) this] Suc.prems(3) show ?thesis by simp
  qed
  with linked_Some[OF Suc.prems(1) q(1)] q show ?case by simp
qed

subsection \<open>What GetPermissionTrees returns\<close>

lemma GetAllPermissions_mset: "mset (GetAllPermissions table) = mset table"
  by (simp add: GetAllPermissions_def)

lemma GetAllPermissions_set: "set (GetAllPermissions table) = set table"
  by (simp add: GetAllPermissions_def)

lemma GetAllPermissions_length: "length (GetAllPermissions table) = length table"
  by (simp add: GetAllPermissions_def)

lemma GetAllPermissions_distinct:
  "distinct (map Perm_Code table) \<Longrightarrow> distinct (map Perm_Code (GetAllPermissions table))"
proof -
  have "mset (map Perm_Code (GetAllPermissions table)) = mset (map Perm_Code table)"
    by (simp add: GetAllPermissions_mset)
  then show "distinct (map Perm_Code table) \<Longrightarrow> distinct (map Perm_Code (GetAllPermissions table))"
    by (metis mset_eq_imp_distinct_iff)
qed

lemma foldl_create_range:
  "foldl (\<lambda>treeMap perm. treeMap(Perm_Code perm \<mapsto> new_node perm)) m ps k = Some b \<Longrightarrow>
   m k = Some b \<or> (\<exists>p\<in>set ps. b = new_node p)"
proof (induction ps arbitrary: m)
  case Nil
  then show ?case by simp
next
  case (Cons a ps)
  from Cons.prems have "foldl (\<lambda>treeMap perm. treeMap(Perm_Code perm \<mapsto> new_node perm)) (m(Perm_Code a \<mapsto> new_node a)) ps k = Some b"
    by (simp only: foldl.simps)
  from Cons.IH[OF this] show ?case by (auto split: if_splits)
qed

lemma create_nodes_range: "create_nodes ps k = Some b \<Longrightarrow> \<exists>p\<in>set ps. b = new_node p"
  using foldl_create_range[of Map.empty ps k b] by (simp add: create_nodes_def)

lemma GetPermissionTrees_unfold:
  "GetPermissionTrees fuel table =
     map_option (\<lambda>h. (sort_Slice (ptr_less (linked (GetAllPermissions table))) (root_codes (GetAllPermissions table)), h))
       (sortChildren fuel (linked (GetAllPermissions table))
          (sort_Slice (ptr_less (linked (GetAllPermissions table))) (root_codes (GetAllPermissions table))))"
  by (simp add: GetPermissionTrees_def Let_def link_nodes_linked root_codes_def)

lemma root_codes_set: "set (root_codes ps) = lvl ps 0"
  by (auto simp: root_codes_def)

lemma GetPermissionTrees_returns:
  assumes "distinct (map Perm_Code table)"
  shows "\<exists>roots h. \<forall>fuel\<ge>Suc (length table). GetPermissionTrees fuel table = Some (roots, h)"
proof -
  let ?ps = "GetAllPermissions table"
  let ?roots = "sort_Slice (ptr_less (linked ?ps)) (root_codes ?ps)"
  have d: "distinct (map Perm_Code ?ps)" using assms by (rule GetAllPermissions_distinct)
  have "\<forall>k\<in>set ?roots. bounded (linked ?ps) (length ?ps) k"
    using linked_bounded[OF d, of _ 0 "length ?ps"] by (simp add: set_sort_Slice root_codes_set)
  from sortChildren_returns[OF this] obtain h where "sortChildren (Suc (length ?ps)) (linked ?ps) ?roots = Some h"
    by blast
  then have "\<forall>fuel\<ge>Suc (length table). sortChildren fuel (linked ?ps) ?roots = Some h"
    by (auto simp: GetAllPermissions_length intro: sortChildren_more_fuel)
  then have "\<forall>fuel\<ge>Suc (length table). GetPermissionTrees fuel table = Some (?roots, h)"
    by (simp add: GetPermissionTrees_unfold)
  then show ?thesis by blast
qed

lemma GetPermissionTrees_facts:
  assumes "GetPermissionTrees fuel table = Some (roots, h)"
  shows "roots = sort_Slice (ptr_less (linked (GetAllPermissions table))) (root_codes (GetAllPermissions table))"
    and "sortChildren fuel (linked (GetAllPermissions table)) roots = Some h"
    and "same_shape (linked (GetAllPermissions table)) h"
proof -
  from assms show r: "roots = sort_Slice (ptr_less (linked (GetAllPermissions table))) (root_codes (GetAllPermissions table))"
    by (auto simp: GetPermissionTrees_unfold)
  from assms show s: "sortChildren fuel (linked (GetAllPermissions table)) roots = Some h"
    by (auto simp: GetPermissionTrees_unfold)
  from s show "same_shape (linked (GetAllPermissions table)) h" by (rule sortChildren_shape)
qed

lemma GetPermissionTrees_roots:
  assumes "GetPermissionTrees fuel table = Some (roots, h)"
  shows "set roots = Perm_Code ` {p \<in> set table. Perm_ParentCode p = []}"
  using GetPermissionTrees_facts(1)[OF assms]
  by (auto simp: set_sort_Slice root_codes_def GetAllPermissions_set)


lemma GetPermissionTrees_children_known:
  assumes "GetPermissionTrees fuel table = Some (roots, h)" and "h k = Some node" and "c \<in> set (Tree_Children node)"
  shows "\<exists>p\<in>set table. Perm_Code p = c \<and> Perm_ParentCode p = k \<and> k \<noteq> [] \<and> k \<in> Perm_Code ` set table"
proof -
  let ?ps = "GetAllPermissions table"
  from same_shape_Some'[OF GetPermissionTrees_facts(3)[OF assms(1)] assms(2)]
  obtain a where a: "linked ?ps k = Some a" "node_perm a node" by blast
  then have k: "k \<in> Perm_Code ` set table" using linked_dom[of ?ps] by (auto simp: GetAllPermissions_set)
  from a(1) obtain b where b: "create_nodes ?ps k = Some b" "a = adopt ?ps k b" by (auto simp: linked_def)
  from create_nodes_range[OF b(1)] have "Tree_Children b = []" by (auto simp: new_node_def)
  with b have "set (Tree_Children a) = set (kids ?ps k)" by (simp add: adopt_def)
  with node_perm_set[OF a(2)] assms(3) have "c \<in> set (kids ?ps k)" by simp
  with k show ?thesis by (auto simp: set_kids GetAllPermissions_set)
qed



lemma eval_demo2: "map_option fst (GetPermissionTrees 1 [demo_orphan, demo_orphan_child]) = Some []"
  by (simp add: GetPermissionTrees_def GetAllPermissions_def create_nodes_def link_nodes_def sort_Slice_def
      demo_orphan_def demo_orphan_child_def new_node_def ptr_less_def less_Type_Sort_def Let_def eval_nat_numeral)

subsection \<open>Claims C1 and C2: the permission tree\<close>




text \<open>Claim C2, as amended. When the permission codes are distinct, the roots are exactly the
  permissions with an empty parent code, and a permission whose non-empty parent code is no
  code of the list is not a root and is nowhere in the returned forest.\<close>

theorem C2_orphans_are_left_out:
  assumes "distinct (map Perm_Code table)" and "p \<in> set table"
    and "Perm_ParentCode p \<noteq> []" and "Perm_ParentCode p \<notin> Perm_Code ` set table"
  shows "\<exists>roots h. (\<forall>fuel\<ge>Suc (length table). GetPermissionTrees fuel table = Some (roots, h)) \<and>
           set roots = Perm_Code ` {q \<in> set table. Perm_ParentCode q = []} \<and>
           Perm_Code p \<notin> set roots \<and> \<not> in_forest h roots (Perm_Code p)"
proof -
  from GetPermissionTrees_returns[OF assms(1)] obtain roots h
    where all: "\<forall>fuel\<ge>Suc (length table). GetPermissionTrees fuel table = Some (roots, h)" by blast
  then have r: "GetPermissionTrees (Suc (length table)) table = Some (roots, h)" by simp
  note rs = GetPermissionTrees_roots[OF r]
  have nr: "Perm_Code p \<notin> set roots"
  proof
    assume "Perm_Code p \<in> set roots"
    with rs obtain q where "q \<in> set table" "Perm_ParentCode q = []" "Perm_Code q = Perm_Code p" by auto
    with code_inj[OF assms(1), of q p] assms(2,3) show False by auto
  qed
  have "\<not> in_forest h roots (Perm_Code p)"
  proof
    assume "in_forest h roots (Perm_Code p)"
    then show False
    proof (cases rule: in_forest.cases)
      case root
      with nr show False by simp
    next
      case (child k node)
      from GetPermissionTrees_children_known[OF r child(2,3)] obtain q where
        "q \<in> set table" "Perm_Code q = Perm_Code p" "Perm_ParentCode q = k" "k \<in> Perm_Code ` set table"
        by blast
      with code_inj[OF assms(1), of q p] assms(2,4) show False by auto
    qed
  qed
  with all rs nr show ?thesis by blast
qed

text \<open>The theorem on a seed row and a row whose parent code \<open>audit\<close> names no row.\<close>

theorem C2_witness:
  "distinct (map Perm_Code [demo_system, demo_orphan]) \<and> demo_orphan \<in> set [demo_system, demo_orphan] \<and>
   Perm_ParentCode demo_orphan \<noteq> [] \<and> Perm_ParentCode demo_orphan \<notin> Perm_Code ` set [demo_system, demo_orphan] \<and>
   (\<exists>roots h. GetPermissionTrees 3 [demo_system, demo_orphan] = Some (roots, h) \<and>
      set roots = {''system''} \<and> ''report'' \<notin> set roots \<and> \<not> in_forest h roots ''report'')"
proof -
  have a: "distinct (map Perm_Code [demo_system, demo_orphan])" "demo_orphan \<in> set [demo_system, demo_orphan]"
    "Perm_ParentCode demo_orphan \<noteq> []" "Perm_ParentCode demo_orphan \<notin> Perm_Code ` set [demo_system, demo_orphan]"
    by (simp_all add: demo_system_def demo_orphan_def)
  from C2_orphans_are_left_out[OF a] obtain roots h where
    "\<forall>fuel\<ge>Suc (length [demo_system, demo_orphan]). GetPermissionTrees fuel [demo_system, demo_orphan] = Some (roots, h)"
    "set roots = Perm_Code ` {q \<in> set [demo_system, demo_orphan]. Perm_ParentCode q = []}"
    "Perm_Code demo_orphan \<notin> set roots" "\<not> in_forest h roots (Perm_Code demo_orphan)"
    by blast
  moreover have "Perm_Code ` {q \<in> set [demo_system, demo_orphan]. Perm_ParentCode q = []}
      = set (map Perm_Code (filter (\<lambda>q. Perm_ParentCode q = []) [demo_system, demo_orphan]))"
    by (simp only: set_map set_filter)
  then have "Perm_Code ` {q \<in> set [demo_system, demo_orphan]. Perm_ParentCode q = []} = {''system''}"
    by (simp add: demo_system_def demo_orphan_def)
  ultimately have "GetPermissionTrees 3 [demo_system, demo_orphan] = Some (roots, h) \<and>
      set roots = {''system''} \<and> ''report'' \<notin> set roots \<and> \<not> in_forest h roots ''report''"
    by (simp add: demo_orphan_def)
  with a show ?thesis by blast
qed

text \<open>Claim C2 as stated fails: the parent code of \<open>report\<close> matches no code, and the root slice
  returned holds \<open>system\<close> only.\<close>

theorem C2_counterexample:
  "demo_orphan \<in> set [demo_system, demo_orphan] \<and> Perm_ParentCode demo_orphan \<noteq> [] \<and>
   Perm_ParentCode demo_orphan \<notin> Perm_Code ` set [demo_system, demo_orphan] \<and>
   map_option fst (GetPermissionTrees 3 [demo_system, demo_orphan]) = Some [''system''] \<and>
   Perm_Code demo_orphan \<notin> set [''system'']"
  by (simp add: GetPermissionTrees_def GetAllPermissions_def create_nodes_def link_nodes_def sort_Slice_def
      demo_orphan_def demo_system_def new_node_def ptr_less_def less_Type_Sort_def Let_def eval_nat_numeral)

subsection \<open>Claims C3, C4 and C5: deleting a role, pages, duplicate user names\<close>

lemma gorm_First_Inr:
  "gorm_First pk cond rows = Inr r \<Longrightarrow> r \<in> set rows \<and> cond r"
proof -
  assume a: "gorm_First pk cond rows = Inr r"
  then obtain x xs where f: "filter cond rows = x # xs" and r: "r = arg_min_list pk (x # xs)"
    by (auto simp: gorm_First_def split: list.splits)
  have "arg_min_list pk (x # xs) \<in> set (x # xs)" by (rule arg_min_list_in) simp
  with r f have "r \<in> set (filter cond rows)" by simp
  then show ?thesis by simp
qed

lemma gorm_First_Inl:
  "gorm_First pk cond rows = Inl err \<Longrightarrow> err = ErrRecordNotFound \<and> (\<forall>r\<in>set rows. \<not> cond r)"
  by (auto simp: gorm_First_def filter_empty_conv split: list.splits)

lemma gorm_First_found:
  "\<exists>r\<in>set rows. cond r \<Longrightarrow> \<exists>r. gorm_First pk cond rows = Inr r"
  by (cases "gorm_First pk cond rows") (auto dest: gorm_First_Inl)

text \<open>Claim C3 does not hold of the code. \<open>DeleteRole\<close> on the role of the example database
  deletes the row of \<open>roles\<close> and leaves the row (1, 1) of \<open>role_permissions\<close> in place;
  \<open>DeletePermission\<close> clears the join rows of a permission before it deletes it.\<close>

theorem C3_DeleteRole_leaves_join_rows:
  "DeleteRole demo_db 1 = (Inr (), demo_db\<lparr>roles := []\<rparr>) \<and>
   role_permissions (snd (DeleteRole demo_db 1)) = [(1, 1)] \<and>
   snd (RoleController_Delete demo_db 1) = demo_db\<lparr>roles := []\<rparr>"
  by (simp add: DeleteRole_def RoleController_Delete_def demo_db_def demo_role_def)

lemma sint_offset:
  fixes page pageSize :: "64 word"
  assumes "1 \<le> sint page" and "0 \<le> sint pageSize" and "(sint page - 1) * sint pageSize < 2 ^ 63"
  shows "sint ((page - 1) * pageSize) = (sint page - 1) * sint pageSize"
proof -
  have lo: "- (2 ^ 63) \<le> sint page" and hi: "sint page < 2 ^ 63"
    using sint_ge[of page] sint_lt[of page] by simp_all
  have "sint (page - 1) = signed_take_bit 63 (sint page - 1)"
    by (simp add: sint_word_ariths)
  also have "\<dots> = sint page - 1"
    using assms(1) hi by (intro signed_take_bit_int_eq_self) simp_all
  finally have m: "sint (page - 1) = sint page - 1" .
  have "sint ((page - 1) * pageSize) = signed_take_bit 63 (sint (page - 1) * sint pageSize)"
    by (simp add: sint_word_ariths)
  also have "\<dots> = signed_take_bit 63 ((sint page - 1) * sint pageSize)" by (simp only: m)
  also have "\<dots> = (sint page - 1) * sint pageSize"
  proof (rule signed_take_bit_int_eq_self)
    have "0 \<le> (sint page - 1) * sint pageSize" using assms(1,2) by simp
    then show "- (2 ^ 63) \<le> (sint page - 1) * sint pageSize" by simp
    show "(sint page - 1) * sint pageSize < 2 ^ 63" using assms(3) .
  qed
  finally show ?thesis .
qed

lemma gorm_Offset_Limit_Find_page:
  "0 \<le> offset \<Longrightarrow> 0 \<le> limit \<Longrightarrow>
   gorm_Offset_Limit_Find offset limit rows = take (nat limit) (drop (nat offset) rows)"
  by (simp add: gorm_Offset_Limit_Find_def)

text \<open>Claim C4, as amended. For \<open>page \<ge> 1\<close> and \<open>pageSize \<ge> 0\<close> whose offset
  \<open>(page - 1) * pageSize\<close> fits Go's 64-bit \<open>int\<close>, \<open>GetUserList\<close> and \<open>GetRoleList\<close> return the
  rows from that offset on, at most \<open>pageSize\<close> of them, and the number of all rows of the
  table as the total.\<close>

theorem C4_page_without_overflow:
  fixes page pageSize :: "64 word"
  assumes "1 \<le> sint page" and "0 \<le> sint pageSize" and "(sint page - 1) * sint pageSize < 2 ^ 63"
  shows "GetUserList db page pageSize =
           Inr (take (nat (sint pageSize)) (drop (nat ((sint page - 1) * sint pageSize)) (users db)),
                int (length (users db))) \<and>
         GetRoleList db page pageSize =
           Inr (take (nat (sint pageSize)) (drop (nat ((sint page - 1) * sint pageSize)) (roles db)),
                int (length (roles db)))"
proof -
  have o: "sint ((page - 1) * pageSize) = (sint page - 1) * sint pageSize"
    using assms by (rule sint_offset)
  have "0 \<le> (sint page - 1) * sint pageSize" using assms(1,2) by simp
  with o assms(2) show ?thesis
    by (simp add: GetUserList_def GetRoleList_def gorm_Offset_Limit_Find_page)
qed

text \<open>The theorem on the second page of size one of a table of two users.\<close>

theorem C4_witness:
  "1 \<le> sint (2 :: 64 word) \<and> 0 \<le> sint (1 :: 64 word) \<and> (sint (2 :: 64 word) - 1) * sint (1 :: 64 word) < 2 ^ 63 \<and>
   GetUserList (demo_db\<lparr>users := [demo_admin, demo_admin\<lparr>User_ID := 2, User_Username := ''bob''\<rparr>]\<rparr>) 2 1 =
     Inr ([demo_admin\<lparr>User_ID := 2, User_Username := ''bob''\<rparr>], 2)"
  using C4_page_without_overflow[of 2 1 "demo_db\<lparr>users := [demo_admin, demo_admin\<lparr>User_ID := 2, User_Username := ''bob''\<rparr>]\<rparr>"]
  by simp

text \<open>Claim C4 as stated fails where the offset overflows: for page \<open>2^62 + 1\<close> and page size 4
  the offset \<open>2^64\<close> wraps to 0 and the first page is returned, although the table has no row
  at offset \<open>2^64\<close>.\<close>

theorem C4_counterexample:
  "1 \<le> sint (4611686018427387905 :: 64 word) \<and> 0 \<le> sint (4 :: 64 word) \<and>
   GetUserList demo_db 4611686018427387905 4 = Inr ([demo_admin], 1) \<and>
   drop (nat ((sint (4611686018427387905 :: 64 word) - 1) * sint (4 :: 64 word))) (users demo_db) = []"
  by (simp add: GetUserList_def gorm_Offset_Limit_Find_def demo_db_def)

text \<open>Claim C5. When the table has a user with the user name of the new user, \<open>CreateUser\<close>
  returns the error \<open>user name already exists\<close> and the database is unchanged.\<close>

theorem C5_duplicate_username_rejected:
  assumes "\<exists>u\<in>set (users db). User_Username u = User_Username user"
  shows "CreateUser bc now db user = (Inl ErrUsernameExists, db)"
proof -
  from assms have "filter (\<lambda>u. User_Username u = User_Username user) (users db) \<noteq> []"
    by (simp add: filter_empty_conv)
  then show ?thesis by (simp add: CreateUser_def Let_def)
qed

text \<open>The theorem on the example database: a second \<open>admin\<close> is rejected.\<close>

theorem C5_witness:
  "(\<exists>u\<in>set (users demo_db). User_Username u = User_Username (demo_admin\<lparr>User_ID := 0\<rparr>)) \<and>
   CreateUser demo_bcrypt 7 demo_db (demo_admin\<lparr>User_ID := 0\<rparr>) = (Inl ErrUsernameExists, demo_db)"
proof -
  have "\<exists>u\<in>set (users demo_db). User_Username u = User_Username (demo_admin\<lparr>User_ID := 0\<rparr>)"
    by (simp add: demo_db_def)
  with C5_duplicate_username_rejected[OF this, of demo_bcrypt 7] show ?thesis by simp
qed

subsection \<open>Claims C7 and C6: deleting a permission, login\<close>

lemma DeletePermission_cases:
  "DeletePermission fails db id' =
     (if fails StepBegin \<or> fails StepFirst then (Inl ErrDatabase, db)
      else if \<forall>p\<in>set (permissions db). Perm_ID p \<noteq> id' then (Inl ErrRecordNotFound, db)
      else if fails StepClear \<or> fails StepDelete \<or> fails StepCommit then (Inl ErrDatabase, db)
      else (Inr (), permission_deleted db id'))"
proof (cases "gorm_First Perm_ID (\<lambda>p. Perm_ID p = id') (permissions db)")
  case (Inl err)
  from gorm_First_Inl[OF Inl] show ?thesis
    by (simp add: DeletePermission_def Begin_def Rollback_def tx_First_permission_def Inl)
next
  case (Inr permission)
  from gorm_First_Inr[OF Inr] have p: "permission \<in> set (permissions db)" "Perm_ID permission = id'"
    by simp_all
  then have ex: "(\<forall>p\<in>set (permissions db). Perm_ID p \<noteq> id') = False" by blast
  show ?thesis unfolding ex
    by (cases "fails StepBegin"; cases "fails StepFirst"; cases "fails StepClear";
        cases "fails StepDelete"; cases "fails StepCommit")
      (simp_all add: DeletePermission_def Begin_def Rollback_def Commit_def tx_First_permission_def
        tx_Clear_Roles_def tx_Delete_permission_def Inr permission_deleted_def Let_def p(2))
qed

lemma some_step: "(\<exists>s. fails s) = (fails StepBegin \<or> fails StepFirst \<or> fails StepClear \<or> fails StepDelete \<or> fails StepCommit)"
proof
  assume "\<exists>s. fails s"
  then obtain s where "fails s" ..
  then show "fails StepBegin \<or> fails StepFirst \<or> fails StepClear \<or> fails StepDelete \<or> fails StepCommit"
    by (cases s) auto
qed auto

text \<open>Claim C7. \<open>DeletePermission\<close> clears the join rows of the permission and then deletes its
  row inside one transaction: when the permission does not exist, or any of the database
  calls fails, it returns an error and the database is as it was; it never returns an error
  with a changed database; and when the permission exists and no call fails it succeeds,
  and both the join rows and the row are gone, all else unchanged.\<close>

theorem C7_DeletePermission_atomic:
  "(\<forall>err. fst (DeletePermission fails db id') = Inl err \<longrightarrow> snd (DeletePermission fails db id') = db) \<and>
   ((\<forall>p\<in>set (permissions db). Perm_ID p \<noteq> id') \<longrightarrow> (\<exists>err. DeletePermission fails db id' = (Inl err, db))) \<and>
   ((\<exists>s. fails s) \<longrightarrow> (\<exists>err. DeletePermission fails db id' = (Inl err, db))) \<and>
   ((\<exists>p\<in>set (permissions db). Perm_ID p = id') \<and> (\<forall>s. \<not> fails s) \<longrightarrow>
      DeletePermission fails db id' = (Inr (), permission_deleted db id')) \<and>
   (fst (DeletePermission fails db id') = Inr () \<longrightarrow>
      snd (DeletePermission fails db id') = permission_deleted db id' \<and>
      (\<forall>p\<in>set (permissions (snd (DeletePermission fails db id'))). Perm_ID p \<noteq> id') \<and>
      (\<forall>(role_id, permission_id)\<in>set (role_permissions (snd (DeletePermission fails db id'))). permission_id \<noteq> id') \<and>
      users (snd (DeletePermission fails db id')) = users db \<and>
      roles (snd (DeletePermission fails db id')) = roles db)"
proof (intro conjI)
  show "\<forall>err. fst (DeletePermission fails db id') = Inl err \<longrightarrow> snd (DeletePermission fails db id') = db"
    by (simp add: DeletePermission_cases)
  show "(\<forall>p\<in>set (permissions db). Perm_ID p \<noteq> id') \<longrightarrow> (\<exists>err. DeletePermission fails db id' = (Inl err, db))"
    by (simp add: DeletePermission_cases)
  show "(\<exists>s. fails s) \<longrightarrow> (\<exists>err. DeletePermission fails db id' = (Inl err, db))"
    unfolding some_step by (auto simp: DeletePermission_cases)
  show "(\<exists>p\<in>set (permissions db). Perm_ID p = id') \<and> (\<forall>s. \<not> fails s) \<longrightarrow>
      DeletePermission fails db id' = (Inr (), permission_deleted db id')"
    by (auto simp: DeletePermission_cases)
  show "fst (DeletePermission fails db id') = Inr () \<longrightarrow>
      snd (DeletePermission fails db id') = permission_deleted db id' \<and>
      (\<forall>p\<in>set (permissions (snd (DeletePermission fails db id'))). Perm_ID p \<noteq> id') \<and>
      (\<forall>(role_id, permission_id)\<in>set (role_permissions (snd (DeletePermission fails db id'))). permission_id \<noteq> id') \<and>
      users (snd (DeletePermission fails db id')) = users db \<and>
      roles (snd (DeletePermission fails db id')) = roles db"
    by (auto simp: DeletePermission_cases permission_deleted_def split: if_splits)
qed

text \<open>The theorem on the example database: with no fault the permission and its join row are
  deleted; when the \<open>DELETE\<close> fails after the join row was cleared, nothing is changed.\<close>

theorem C7_witness:
  "DeletePermission no_faults demo_db 1 = (Inr (), demo_db\<lparr>role_permissions := [], permissions := []\<rparr>) \<and>
   DeletePermission delete_fault demo_db 1 = (Inl ErrDatabase, demo_db) \<and>
   DeletePermission no_faults demo_db 2 = (Inl ErrRecordNotFound, demo_db)"
proof -
  have a: "(\<exists>p\<in>set (permissions demo_db). Perm_ID p = 1) \<and> (\<forall>s. \<not> no_faults s)"
    by (simp add: demo_db_def demo_permission_def no_faults_def)
  have "permission_deleted demo_db 1 = demo_db\<lparr>role_permissions := [], permissions := []\<rparr>"
    by (simp add: permission_deleted_def demo_db_def demo_permission_def)
  with a C7_DeletePermission_atomic[of no_faults demo_db 1]
  have 1: "DeletePermission no_faults demo_db 1 = (Inr (), demo_db\<lparr>role_permissions := [], permissions := []\<rparr>)"
    by simp
  have "\<exists>s. delete_fault s" by (auto simp: delete_fault_def)
  with C7_DeletePermission_atomic[of delete_fault demo_db 1]
  obtain err where e: "DeletePermission delete_fault demo_db 1 = (Inl err, demo_db)" by blast
  have 2: "DeletePermission delete_fault demo_db 1 = (Inl ErrDatabase, demo_db)"
    by (simp add: DeletePermission_cases delete_fault_def demo_db_def demo_permission_def)
  have 3: "DeletePermission no_faults demo_db 2 = (Inl ErrRecordNotFound, demo_db)"
    by (simp add: DeletePermission_cases no_faults_def demo_db_def demo_permission_def)
  from 1 2 3 show ?thesis by simp
qed







subsection \<open>Claim C8: passwords\<close>

lemma length_fit: "length (fit n s) = n"
  by (simp add: fit_def)

lemma parse_generated:
  "parse_hash (''$2a$10$'' @ fit 22 s @ fit 31 d) = Some (10, fit 22 s, fit 31 d)"
  by (simp add: parse_hash_def length_fit Atoi_def decimal_def is_digit_def)

lemma bcrypt_package_Generate:
  assumes "GenerateFromPassword (bcrypt_package salt_for hash_of) pw = Inr h"
  shows "\<exists>salt out. salt_for pw = Inr salt \<and> hash_of 10 (fit 22 salt) (bcrypt_key pw) = Inr out \<and>
           h = ''$2a$10$'' @ fit 22 salt @ fit 31 out"
  using assms by (auto simp: bcrypt_package_def split: sum.splits)

lemma bcrypt_package_Compare:
  "CompareHashAndPassword (bcrypt_package salt_for hash_of) (''$2a$10$'' @ fit 22 salt @ fit 31 out) pw =
     (case hash_of 10 (fit 22 salt) (bcrypt_key pw) of Inl err \<Rightarrow> False | Inr out' \<Rightarrow> fit 31 out = fit 31 out')"
  by (simp add: bcrypt_package_def parse_generated del: append.simps)

lemma bcrypt_package_layout:
  assumes "GenerateFromPassword (bcrypt_package salt_for hash_of) pw = Inr h"
  shows "length h = 60 \<and> take 7 h = ''$2a$10$'' \<and>
         CompareHashAndPassword (bcrypt_package salt_for hash_of) h pw' =
           (case hash_of 10 (take 22 (drop 7 h)) (bcrypt_key pw') of
              Inl err \<Rightarrow> False
            | Inr out \<Rightarrow> drop 29 h = fit 31 out)"
proof -
  from bcrypt_package_Generate[OF assms] obtain salt out where
    h: "h = ''$2a$10$'' @ fit 22 salt @ fit 31 out"
    by blast
  have 1: "length h = 60" "take 7 h = ''$2a$10$''"
    "take 22 (drop 7 h) = fit 22 salt" "drop 29 h = fit 31 out"
    by (simp_all add: h length_fit)
  have "CompareHashAndPassword (bcrypt_package salt_for hash_of) h pw' =
      (case hash_of 10 (fit 22 salt) (bcrypt_key pw') of Inl err \<Rightarrow> False | Inr out' \<Rightarrow> fit 31 out = fit 31 out')"
    unfolding h by (rule bcrypt_package_Compare)
  with 1 show ?thesis by (simp split: sum.splits)
qed

lemma bcrypt_package_accepts:
  assumes "GenerateFromPassword (bcrypt_package salt_for hash_of) pw = Inr h"
    and "bcrypt_key pw' = bcrypt_key pw"
  shows "CompareHashAndPassword (bcrypt_package salt_for hash_of) h pw'"
proof -
  from bcrypt_package_Generate[OF assms(1)] obtain salt out where
    o: "hash_of 10 (fit 22 salt) (bcrypt_key pw) = Inr out" and h: "h = ''$2a$10$'' @ fit 22 salt @ fit 31 out"
    by blast
  show ?thesis unfolding h bcrypt_package_Compare assms(2) o by simp
qed

lemma max_id_ge: "(x::nat) \<in> set ids \<Longrightarrow> x \<le> fold max ids a"
proof (induction ids arbitrary: a)
  case Nil
  then show ?case by simp
next
  case (Cons i ids)
  have mono: "b \<le> fold max ids b" for b :: nat
  proof (induction ids arbitrary: b)
    case Nil
    then show ?case by simp
  next
    case (Cons j js)
    have "b \<le> max j b" by simp
    also have "\<dots> \<le> fold max js (max j b)" by (rule Cons.IH)
    finally show ?case by simp
  qed
  show ?case
  proof (cases "x = i")
    case True
    have "i \<le> max i a" by simp
    also have "\<dots> \<le> fold max ids (max i a)" by (rule mono)
    finally show ?thesis using True by simp
  next
    case False
    with Cons.prems have "x \<in> set ids" by simp
    from Cons.IH[OF this] show ?thesis by simp
  qed
qed

lemma next_id_fresh: "Suc (max s (max_id ids)) \<notin> set ids"
proof
  assume "Suc (max s (max_id ids)) \<in> set ids"
  from max_id_ge[OF this, of 0] show False by (simp add: max_id_def)
qed

lemma CreateUser_Inr:
  assumes "CreateUser bc now db user = (Inr user', db')"
  shows "\<exists>h. GenerateFromPassword bc (User_Password user) = Inr h \<and> User_Password user' = h \<and>
           users db' = insort_key User_ID user' (users db)"
proof -
  from assms obtain h where h: "GenerateFromPassword bc (User_Password user) = Inr h"
    and c: "gorm_Create_user now db (user\<lparr>User_Password := h\<rparr>) = (Inr user', db')"
    by (auto simp: CreateUser_def Let_def split: if_splits sum.splits)
  from c have "User_Password user' = h \<and> users db' = insort_key User_ID user' (users db)"
    by (auto simp: gorm_Create_user_def Let_def split: if_splits)
  with h show ?thesis by blast
qed

lemma CreateUser_succeeds:
  assumes "\<forall>u\<in>set (users db). User_Username u \<noteq> User_Username user" and "User_ID user = 0"
    and "GenerateFromPassword bc (User_Password user) = Inr h"
  shows "\<exists>user' db'. CreateUser bc now db user = (Inr user', db') \<and> User_Password user' = h"
proof -
  from assms(1) have f: "filter (\<lambda>u. User_Username u = User_Username user) (users db) = []"
    by (simp add: filter_empty_conv)
  from assms(1) have n: "User_Username user \<notin> User_Username ` set (users db)" by auto
  have i: "Suc (max (users_seq db) (max_id (map User_ID (users db)))) \<notin> User_ID ` set (users db)"
    using next_id_fresh[of "users_seq db" "map User_ID (users db)"] by simp
  show ?thesis
    by (simp add: CreateUser_def f assms(2,3) gorm_Create_user_def Let_def n i)
qed

lemma gorm_Updates_users_Inr:
  assumes "gorm_Updates_users now db id' m = (Inr (), db')"
  shows "\<exists>rows. mset (users db') = mset rows \<and>
           list_all2 (\<lambda>u u'. if User_ID u = id' then u' = assign_user m now u else u' = u) (users db) rows"
proof (cases "list_ex (\<lambda>u. User_ID u = id') (users db)")
  case False
  with assms have d: "db' = db" by (auto simp: gorm_Updates_users_def split: if_splits)
  from False have "list_all2 (\<lambda>u u'. if User_ID u = id' then u' = assign_user m now u else u' = u) (users db) (users db)"
    by (auto simp: list_ex_iff list.rel_refl_strong)
  with d show ?thesis by blast
next
  case True
  let ?rows = "map (\<lambda>u. if User_ID u = id' then assign_user m now u else u) (users db)"
  from assms True have "users db' = ?rows \<or> users db' = sort_key User_ID ?rows"
    by (auto simp: gorm_Updates_users_def Let_def split: if_splits)
  then have "mset (users db') = mset ?rows" by auto
  moreover have "list_all2 (\<lambda>u u'. if User_ID u = id' then u' = assign_user m now u else u' = u) (users db) ?rows"
    by (simp add: list_all2_map2 list.rel_refl_strong)
  ultimately show ?thesis by blast
qed

lemma entry_password:
  "entry (fmupd ''password'' (VString h) m) ''password'' ''Password'' = Some (VString h)"
  by (simp add: entry_def)

lemma assign_user_password:
  "User_Password (assign_user (fmupd ''password'' (VString h) m) now u) = h"
  by (simp add: assign_user_def entry_password text_or_def text_cell_def)

lemma UpdateUser_hashes:
  assumes "fmlookup m ''password'' = Some (VString pw)" and "pw \<noteq> []"
  shows "UpdateUser bc now db id' m =
           (case GenerateFromPassword bc pw of
              Inl err \<Rightarrow> (Inl err, db)
            | Inr h \<Rightarrow> gorm_Updates_users now db id' (fmupd ''password'' (VString h) m))"
  using assms by (simp add: UpdateUser_def)

lemma absent_key:
  "fmdom m |\<subseteq>| S \<Longrightarrow> k |\<notin>| S \<Longrightarrow> fmlookup m k = None"
  by (meson fmdom_notD fsubsetD)

lemma text_updates_succeed:
  assumes d: "distinct (map User_Username (users db))"
    and k: "fmdom m |\<subseteq>| {|''password'', ''Password'', ''realname'', ''Realname'', ''email'', ''Email''|}"
  shows "fst (gorm_Updates_users now db id' m) = Inr ()"
proof -
  let ?S = "{|''password'', ''Password'', ''realname'', ''Realname'', ''email'', ''Email''|}"
  have n: "fmlookup m ''id'' = None" "fmlookup m ''ID'' = None"
    "fmlookup m ''username'' = None" "fmlookup m ''Username'' = None"
    "fmlookup m ''status'' = None" "fmlookup m ''Status'' = None"
    "fmlookup m ''role_id'' = None" "fmlookup m ''RoleID'' = None"
    "fmlookup m ''created_at'' = None" "fmlookup m ''CreatedAt'' = None"
    "fmlookup m ''updated_at'' = None" "fmlookup m ''UpdatedAt'' = None"
    by (rule absent_key[OF k], simp)+
  have "?S |\<subseteq>| user_keys"
    by (simp add: user_keys_def)
  with k have s: "fmdom m |\<subseteq>| user_keys"
    by (rule order_trans)
  have r: "representable_user_updates m" "\<not> key_mismatch m" "entry m ''id'' ''ID'' = None"
    by (simp_all add: representable_user_updates_def key_mismatch_def entry_def n holds_nat_def holds_int_def)
  have a: "User_Username (assign_user m now u) = User_Username u" "User_ID (assign_user m now u) = User_ID u" for u
    by (simp_all add: assign_user_def entry_def n text_or_def integer_or_def)
  have c: "\<not> list_ex (\<lambda>u. User_ID u = id' \<and>
                list_ex (\<lambda>other. User_ID other \<noteq> id' \<and>
                   (User_Username other = User_Username (assign_user m now u) \<or>
                    User_ID other = User_ID (assign_user m now u))) (users db)) (users db)"
  proof
    assume "list_ex (\<lambda>u. User_ID u = id' \<and>
                list_ex (\<lambda>other. User_ID other \<noteq> id' \<and>
                   (User_Username other = User_Username (assign_user m now u) \<or>
                    User_ID other = User_ID (assign_user m now u))) (users db)) (users db)"
    then obtain u other where u: "u \<in> set (users db)" "User_ID u = id'"
      and o: "other \<in> set (users db)" "User_ID other \<noteq> id'"
        "User_Username other = User_Username u \<or> User_ID other = User_ID u"
      unfolding list_ex_iff a by blast
    from o(2,3) u(2) have e: "User_Username other = User_Username u" by simp
    from d u(1) o(1) e have "other = u" by (meson distinct_map inj_onD)
    with o(2) u(2) show False by simp
  qed
  show ?thesis
    by (simp add: gorm_Updates_users_def s r c Let_def)
qed

text \<open>Claim C8, as amended. \<open>CreateUser\<close>: the row it inserts holds the hash that
  \<open>GenerateFromPassword\<close> returned for the supplied password, and it inserts a row whenever
  the user name is new, the key is left to the database and the hashing succeeds.
  \<open>UpdateUser\<close>, for a map whose \<open>password\<close> entry is a non-empty string: when the hashing fails
  it returns that error and writes nothing; otherwise it hands GORM the map with the hash in
  place of the entry, so that the statement assigns the hash to the column \<open>password\<close>, and
  after a successful update every row with the key \<open>id'\<close> holds the hash and every other
  row is as before; the update succeeds on every table with distinct user names when the
  map has entries for the password, the real name and the email only. \<open>VerifyPassword\<close>
  accepts a password exactly when \<open>CompareHashAndPassword\<close> accepts it for the stored
  value. With the package as modelled above, whatever the salt and the encryption: a
  hash is a text of 60 bytes that begins with \<open>$2a$10$\<close>, so it is not the password
  unless that is such a text; a password is accepted for it exactly when the encryption of
  its key bytes with the salt of the hash gives the last 31 bytes of the hash; that holds for
  the password that was hashed, and for every password with the same 72 key bytes.\<close>

theorem C8_passwords_are_hashed:
  "(CreateUser bc now db user = (Inr user', db') \<longrightarrow>
      (\<exists>h. GenerateFromPassword bc (User_Password user) = Inr h \<and> User_Password user' = h \<and>
           users db' = insort_key User_ID user' (users db))) \<and>
   ((\<forall>u\<in>set (users db). User_Username u \<noteq> User_Username user) \<and> User_ID user = 0 \<and>
    GenerateFromPassword bc (User_Password user) = Inr h0 \<longrightarrow>
      (\<exists>row db1. CreateUser bc now db user = (Inr row, db1) \<and> User_Password row = h0)) \<and>
   (fmlookup m ''password'' = Some (VString pw) \<and> pw \<noteq> [] \<and> GenerateFromPassword bc pw = Inl err \<longrightarrow>
      UpdateUser bc now db id' m = (Inl err, db)) \<and>
   (fmlookup m ''password'' = Some (VString pw) \<and> pw \<noteq> [] \<and> GenerateFromPassword bc pw = Inr h \<longrightarrow>
      UpdateUser bc now db id' m = gorm_Updates_users now db id' (fmupd ''password'' (VString h) m) \<and>
      entry (fmupd ''password'' (VString h) m) ''password'' ''Password'' = Some (VString h) \<and>
      (UpdateUser bc now db id' m = (Inr (), db'') \<longrightarrow>
         (\<exists>rows. mset (users db'') = mset rows \<and>
            list_all2 (\<lambda>u u'. if User_ID u = id' then User_Password u' = h else u' = u) (users db) rows)) \<and>
      (distinct (map User_Username (users db)) \<and>
       fmdom m |\<subseteq>| {|''password'', ''Password'', ''realname'', ''Realname'', ''email'', ''Email''|} \<longrightarrow>
         fst (UpdateUser bc now db id' m) = Inr ())) \<and>
   VerifyPassword bc u password = CompareHashAndPassword bc (User_Password u) password \<and>
   (GenerateFromPassword (bcrypt_package salt_for hash_of) pw1 = Inr h1 \<longrightarrow>
      length h1 = 60 \<and> take 7 h1 = ''$2a$10$'' \<and> (length pw1 \<noteq> 60 \<longrightarrow> h1 \<noteq> pw1) \<and>
      CompareHashAndPassword (bcrypt_package salt_for hash_of) h1 pw2 =
        (case hash_of 10 (take 22 (drop 7 h1)) (bcrypt_key pw2) of
           Inl err \<Rightarrow> False
         | Inr out \<Rightarrow> drop 29 h1 = fit 31 out) \<and>
      CompareHashAndPassword (bcrypt_package salt_for hash_of) h1 pw1 \<and>
      (bcrypt_key pw2 = bcrypt_key pw1 \<longrightarrow> CompareHashAndPassword (bcrypt_package salt_for hash_of) h1 pw2))"
proof (intro conjI impI)
  assume "CreateUser bc now db user = (Inr user', db')"
  then show "\<exists>h. GenerateFromPassword bc (User_Password user) = Inr h \<and> User_Password user' = h \<and>
           users db' = insort_key User_ID user' (users db)"
    by (rule CreateUser_Inr)
next
  assume "(\<forall>u\<in>set (users db). User_Username u \<noteq> User_Username user) \<and> User_ID user = 0 \<and>
    GenerateFromPassword bc (User_Password user) = Inr h0"
  then show "\<exists>row db1. CreateUser bc now db user = (Inr row, db1) \<and> User_Password row = h0"
    using CreateUser_succeeds by blast
next
  assume "fmlookup m ''password'' = Some (VString pw) \<and> pw \<noteq> [] \<and> GenerateFromPassword bc pw = Inl err"
  then show "UpdateUser bc now db id' m = (Inl err, db)"
    by (simp add: UpdateUser_hashes)
next
  assume a: "fmlookup m ''password'' = Some (VString pw) \<and> pw \<noteq> [] \<and> GenerateFromPassword bc pw = Inr h"
  then show e: "UpdateUser bc now db id' m = gorm_Updates_users now db id' (fmupd ''password'' (VString h) m)"
    by (simp add: UpdateUser_hashes)
  show "entry (fmupd ''password'' (VString h) m) ''password'' ''Password'' = Some (VString h)"
    by (rule entry_password)
  {
    assume "UpdateUser bc now db id' m = (Inr (), db'')"
    with e have "gorm_Updates_users now db id' (fmupd ''password'' (VString h) m) = (Inr (), db'')" by simp
    from gorm_Updates_users_Inr[OF this] obtain rows where r: "mset (users db'') = mset rows"
      "list_all2 (\<lambda>u u'. if User_ID u = id' then u' = assign_user (fmupd ''password'' (VString h) m) now u else u' = u) (users db) rows"
      by blast
    from r(2) have "list_all2 (\<lambda>u u'. if User_ID u = id' then User_Password u' = h else u' = u) (users db) rows"
      by (rule list_all2_mono) (auto simp: assign_user_password split: if_splits)
    with r(1) show "\<exists>rows. mset (users db'') = mset rows \<and>
            list_all2 (\<lambda>u u'. if User_ID u = id' then User_Password u' = h else u' = u) (users db) rows"
      by blast
  }
  {
    assume k: "distinct (map User_Username (users db)) \<and>
       fmdom m |\<subseteq>| {|''password'', ''Password'', ''realname'', ''Realname'', ''email'', ''Email''|}"
    then have "fmdom (fmupd ''password'' (VString h) m) |\<subseteq>|
        {|''password'', ''Password'', ''realname'', ''Realname'', ''email'', ''Email''|}"
      by simp
    from text_updates_succeed[OF _ this] k e show "fst (UpdateUser bc now db id' m) = Inr ()"
      by simp
  }
next
  show "VerifyPassword bc u password = CompareHashAndPassword bc (User_Password u) password"
    by (simp add: VerifyPassword_def)
next
  assume g: "GenerateFromPassword (bcrypt_package salt_for hash_of) pw1 = Inr h1"
  from bcrypt_package_layout[OF g] show l: "length h1 = 60" and "take 7 h1 = ''$2a$10$''"
    and "CompareHashAndPassword (bcrypt_package salt_for hash_of) h1 pw2 =
        (case hash_of 10 (take 22 (drop 7 h1)) (bcrypt_key pw2) of
           Inl err \<Rightarrow> False
         | Inr out \<Rightarrow> drop 29 h1 = fit 31 out)"
    by simp_all
  {
    assume "length pw1 \<noteq> 60"
    with l show "h1 \<noteq> pw1" by auto
  }
  from bcrypt_package_accepts[OF g] show "CompareHashAndPassword (bcrypt_package salt_for hash_of) h1 pw1"
    by simp
  {
    assume "bcrypt_key pw2 = bcrypt_key pw1"
    with bcrypt_package_accepts[OF g] show "CompareHashAndPassword (bcrypt_package salt_for hash_of) h1 pw2"
      by simp
  }
qed

lemma eval_Generate:
  "GenerateFromPassword demo_package ''secret'' = Inr ''$2a$10$abcdefghijklmnopqrstuvsecret.secret.secret.secret.sec''"
  "GenerateFromPassword demo_package ''newpass'' = Inr ''$2a$10$abcdefghijklmnopqrstuvnewpass.newpass.newpass.newpass''"
  "GenerateFromPassword demo_package ''ab'' = Inr ''$2a$10$abcdefghijklmnopqrstuvab.ab.ab.ab.ab.ab.ab.ab.ab.ab.a''"
  by (simp_all add: demo_package_def bcrypt_package_def demo_salt_for_def demo_hash_of_def fit_def
      bcrypt_key_def eval_nat_numeral)

lemma eval_CreateUser_bob:
  "CreateUser demo_package 7 demo_db demo_bob =
     (Inr (demo_bob\<lparr>User_ID := 2, User_Password := ''$2a$10$abcdefghijklmnopqrstuvsecret.secret.secret.secret.sec'',
                     User_CreatedAt := 7, User_UpdatedAt := 7\<rparr>),
      demo_db\<lparr>users := [demo_admin, demo_bob\<lparr>User_ID := 2,
                  User_Password := ''$2a$10$abcdefghijklmnopqrstuvsecret.secret.secret.secret.sec'',
                  User_CreatedAt := 7, User_UpdatedAt := 7\<rparr>],
              users_seq := 2\<rparr>)"
proof -
  have g: "GenerateFromPassword demo_package (User_Password demo_bob) =
      Inr ''$2a$10$abcdefghijklmnopqrstuvsecret.secret.secret.secret.sec''"
    using eval_Generate(1) by (simp add: demo_bob_def)
  have f: "filter (\<lambda>u. User_Username u = User_Username demo_bob) (users demo_db) = []"
    by (simp add: demo_db_def demo_admin_def demo_bob_def)
  show ?thesis
    by (simp add: CreateUser_def f g)
       (simp add: gorm_Create_user_def demo_db_def demo_bob_def demo_admin_def max_id_def Let_def)
qed

lemma eval_UpdateUser_password:
  "UpdateUser demo_package 7 demo_db 1 demo_password_update =
     (Inr (), demo_db\<lparr>users := [demo_admin\<lparr>
        User_Password := ''$2a$10$abcdefghijklmnopqrstuvnewpass.newpass.newpass.newpass'',
        User_Status := 0, User_UpdatedAt := 7\<rparr>]\<rparr>)"
proof -
  let ?h = "''$2a$10$abcdefghijklmnopqrstuvnewpass.newpass.newpass.newpass''"
  let ?m = "fmupd ''password'' (VString ?h) demo_password_update"
  have l: "fmlookup demo_password_update ''password'' = Some (VString ''newpass'')"
    by (simp add: demo_password_update_def)
  have k: "fmdom ?m |\<subseteq>| user_keys"
    by (simp add: demo_password_update_def user_keys_def)
  have e: "entry ?m ''id'' ''ID'' = None" "entry ?m ''username'' ''Username'' = None"
    "entry ?m ''password'' ''Password'' = Some (VString ?h)"
    "entry ?m ''realname'' ''Realname'' = None" "entry ?m ''email'' ''Email'' = None"
    "entry ?m ''status'' ''Status'' = Some (VString ''0'')" "entry ?m ''role_id'' ''RoleID'' = None"
    "entry ?m ''created_at'' ''CreatedAt'' = None" "entry ?m ''updated_at'' ''UpdatedAt'' = None"
    by (simp_all add: entry_def demo_password_update_def)
  have z: "integer_cell (VString ''0'') = Some 0"
    by (simp add: integer_cell_def sqlite_integer_def Atoi_def decimal_def is_digit_def)
  have r: "representable_user_updates ?m" "\<not> key_mismatch ?m"
    by (simp_all add: representable_user_updates_def key_mismatch_def e holds_nat_def holds_int_def z)
  have a: "assign_user ?m 7 demo_admin =
      demo_admin\<lparr>User_Password := ?h, User_Status := 0, User_UpdatedAt := 7\<rparr>"
    by (simp add: assign_user_def e text_or_def integer_or_def text_cell_def z demo_admin_def)
  have u: "users demo_db = [demo_admin]" "User_ID demo_admin = 1"
    by (simp_all add: demo_db_def demo_admin_def)
  have g: "gorm_Updates_users 7 demo_db 1 ?m =
     (Inr (), demo_db\<lparr>users := [demo_admin\<lparr>User_Password := ?h, User_Status := 0, User_UpdatedAt := 7\<rparr>]\<rparr>)"
    unfolding gorm_Updates_users_def by (simp add: k r e(1) u a Let_def del: fmdom_fmupd)
  have "UpdateUser demo_package 7 demo_db 1 demo_password_update =
      (case GenerateFromPassword demo_package ''newpass'' of
         Inl err \<Rightarrow> (Inl err, demo_db)
       | Inr h \<Rightarrow> gorm_Updates_users 7 demo_db 1 (fmupd ''password'' (VString h) demo_password_update))"
    by (rule UpdateUser_hashes[OF l]) simp
  then show ?thesis
    by (simp only: eval_Generate(2) sum.case g)
qed

text \<open>The theorem on the example database: the row of the new user holds the hash and is
  verified by the password and not by another one; the update writes the hash of the new
  password to the row of the administrator, although the map also has a password under the
  name of the struct field; and an update with a password that bcrypt refuses writes
  nothing.\<close>

theorem C8_witness:
  "(\<exists>row db1. CreateUser demo_package 7 demo_db demo_bob = (Inr row, db1) \<and>
      GenerateFromPassword demo_package ''secret'' = Inr (User_Password row) \<and>
      users db1 = [demo_admin, row] \<and> VerifyPassword demo_package row ''secret'' \<and>
      \<not> VerifyPassword demo_package row ''letmein'') \<and>
   (\<exists>db2. UpdateUser demo_package 7 demo_db 1 demo_password_update = (Inr (), db2) \<and>
      list_all (\<lambda>u'. GenerateFromPassword demo_package ''newpass'' = Inr (User_Password u') \<and>
                  VerifyPassword demo_package u' ''newpass'') (users db2)) \<and>
   UpdateUser demo_package 7 demo_db 1 demo_long_update = (Inl ErrPasswordTooLong, demo_db)"
proof -
  let ?hs = "''$2a$10$abcdefghijklmnopqrstuvsecret.secret.secret.secret.sec''"
  let ?hn = "''$2a$10$abcdefghijklmnopqrstuvnewpass.newpass.newpass.newpass''"
  let ?row = "demo_bob\<lparr>User_ID := 2, User_Password := ?hs, User_CreatedAt := 7, User_UpdatedAt := 7\<rparr>"
  let ?db1 = "demo_db\<lparr>users := [demo_admin, ?row], users_seq := 2\<rparr>"
  let ?adm = "demo_admin\<lparr>User_Password := ?hn, User_Status := 0, User_UpdatedAt := 7\<rparr>"
  let ?db2 = "demo_db\<lparr>users := [?adm]\<rparr>"
  have p: "User_Password demo_bob = ''secret''" by (simp add: demo_bob_def)
  note t = C8_passwords_are_hashed[where bc = demo_package and now = 7 and db = demo_db and user = demo_bob
      and user' = ?row and db' = ?db1 and m = demo_password_update and pw = "''newpass''" and id' = 1
      and db'' = ?db2 and h = ?hn and salt_for = demo_salt_for and hash_of = demo_hash_of
      and ?pw1.0 = "''secret''" and ?h1.0 = ?hs and ?pw2.0 = "''letmein''", folded demo_package_def]
  from t[THEN conjunct1, THEN mp, OF eval_CreateUser_bob]
  obtain h where h: "GenerateFromPassword demo_package (User_Password demo_bob) = Inr h"
    "User_Password ?row = h"
    by (elim exE conjE)
  have 1: "GenerateFromPassword demo_package ''secret'' = Inr (User_Password ?row)"
    using h p by simp
  note k = t[THEN conjunct2, THEN conjunct2, THEN conjunct2, THEN conjunct2, THEN conjunct2,
      THEN mp, OF eval_Generate(1)]
  from k have c: "CompareHashAndPassword demo_package ?hs ''secret''"
    by (elim conjE)
  have 2: "VerifyPassword demo_package ?row ''secret''"
    using c by (simp add: VerifyPassword_def)
  from k have "CompareHashAndPassword demo_package ?hs ''letmein'' =
        (case demo_hash_of 10 (take 22 (drop 7 ?hs)) (bcrypt_key ''letmein'') of
           Inl err \<Rightarrow> False
         | Inr out \<Rightarrow> drop 29 ?hs = fit 31 out)"
    by (elim conjE)
  then have n: "\<not> VerifyPassword demo_package ?row ''letmein''"
    by (simp add: VerifyPassword_def demo_hash_of_def bcrypt_key_def fit_def eval_nat_numeral)
  have l: "fmlookup demo_password_update ''password'' = Some (VString ''newpass'') \<and> ''newpass'' \<noteq> [] \<and>
      GenerateFromPassword demo_package ''newpass'' = Inr ?hn"
    using eval_Generate(2) by (simp add: demo_password_update_def)
  note u = t[THEN conjunct2, THEN conjunct2, THEN conjunct2, THEN conjunct1, THEN mp, OF l]
  from u[THEN conjunct2, THEN conjunct2, THEN conjunct1, THEN mp, OF eval_UpdateUser_password]
  obtain rows where r: "mset (users ?db2) = mset rows"
    "list_all2 (\<lambda>u u'. if User_ID u = 1 then User_Password u' = ?hn else u' = u) (users demo_db) rows"
    by (elim exE conjE)
  from r(1) have "rows = [?adm]" by simp
  with r(2) have w: "User_Password ?adm = ?hn"
    by (simp add: demo_db_def demo_admin_def)
  from C8_passwords_are_hashed[where salt_for = demo_salt_for and hash_of = demo_hash_of
      and ?pw1.0 = "''newpass''" and ?h1.0 = ?hn and ?pw2.0 = "''newpass''", folded demo_package_def,
      THEN conjunct2, THEN conjunct2, THEN conjunct2, THEN conjunct2, THEN conjunct2,
      THEN mp, OF eval_Generate(2)]
  have c2: "CompareHashAndPassword demo_package ?hn ''newpass''"
    by (elim conjE)
  have 3: "list_all (\<lambda>u'. GenerateFromPassword demo_package ''newpass'' = Inr (User_Password u') \<and>
                  VerifyPassword demo_package u' ''newpass'') (users ?db2)"
    using eval_Generate(2) c2 w by (simp add: VerifyPassword_def)
  have "fmlookup demo_long_update ''password'' = Some (VString (replicate 73 CHR ''x'')) \<and>
      replicate 73 CHR ''x'' \<noteq> [] \<and>
      GenerateFromPassword demo_package (replicate 73 CHR ''x'') = Inl ErrPasswordTooLong"
    by (simp add: demo_long_update_def demo_package_def bcrypt_package_def demo_salt_for_def)
  from C8_passwords_are_hashed[where bc = demo_package and now = 7 and db = demo_db and id' = 1
      and m = demo_long_update and pw = "replicate 73 CHR ''x''" and err = ErrPasswordTooLong,
      THEN conjunct2, THEN conjunct2, THEN conjunct1, THEN mp, OF this]
  have 4: "UpdateUser demo_package 7 demo_db 1 demo_long_update = (Inl ErrPasswordTooLong, demo_db)" .
  have 0: "users ?db1 = [demo_admin, ?row]" by simp
  from eval_CreateUser_bob 0 1 2 n have A: "\<exists>row db1. CreateUser demo_package 7 demo_db demo_bob = (Inr row, db1) \<and>
      GenerateFromPassword demo_package ''secret'' = Inr (User_Password row) \<and>
      users db1 = [demo_admin, row] \<and> VerifyPassword demo_package row ''secret'' \<and>
      \<not> VerifyPassword demo_package row ''letmein''"
    by (intro exI conjI)
  from eval_UpdateUser_password 3 have B: "\<exists>db2. UpdateUser demo_package 7 demo_db 1 demo_password_update = (Inr (), db2) \<and>
      list_all (\<lambda>u'. GenerateFromPassword demo_package ''newpass'' = Inr (User_Password u') \<and>
                  VerifyPassword demo_package u' ''newpass'') (users db2)"
    by (intro exI conjI)
  from A B 4 show ?thesis by (intro conjI)
qed

text \<open>Claim C8 as the specification states it does not hold. The user is created with the
  password \<open>ab\<close> and the row holds its hash; \<open>VerifyPassword\<close> accepts \<open>ab\<close> for the row, and
  it also accepts the five bytes \<open>ab\<close>, NUL, \<open>ab\<close>, which are another password: followed by
  a NUL byte and repeated, both give the same 72 key bytes.\<close>

theorem C8_counterexample:
  "CreateUser demo_package 7 demo_db (demo_bob\<lparr>User_Password := ''ab''\<rparr>) =
     (Inr (demo_bob\<lparr>User_ID := 2, User_Password := ''$2a$10$abcdefghijklmnopqrstuvab.ab.ab.ab.ab.ab.ab.ab.ab.ab.a'',
                     User_CreatedAt := 7, User_UpdatedAt := 7\<rparr>),
      demo_db\<lparr>users := [demo_admin, demo_bob\<lparr>User_ID := 2,
                  User_Password := ''$2a$10$abcdefghijklmnopqrstuvab.ab.ab.ab.ab.ab.ab.ab.ab.ab.a'',
                  User_CreatedAt := 7, User_UpdatedAt := 7\<rparr>],
              users_seq := 2\<rparr>) \<and>
   GenerateFromPassword demo_package ''ab'' = Inr ''$2a$10$abcdefghijklmnopqrstuvab.ab.ab.ab.ab.ab.ab.ab.ab.ab.a'' \<and>
   VerifyPassword demo_package
     (demo_bob\<lparr>User_ID := 2, User_Password := ''$2a$10$abcdefghijklmnopqrstuvab.ab.ab.ab.ab.ab.ab.ab.ab.ab.a'',
                User_CreatedAt := 7, User_UpdatedAt := 7\<rparr>) ''ab'' \<and>
   VerifyPassword demo_package
     (demo_bob\<lparr>User_ID := 2, User_Password := ''$2a$10$abcdefghijklmnopqrstuvab.ab.ab.ab.ab.ab.ab.ab.ab.ab.a'',
                User_CreatedAt := 7, User_UpdatedAt := 7\<rparr>) (''ab'' @ [CHR 0x00] @ ''ab'') \<and>
   ''ab'' @ [CHR 0x00] @ ''ab'' \<noteq> ''ab'' \<and>
   bcrypt_key (''ab'' @ [CHR 0x00] @ ''ab'') = bcrypt_key ''ab''"
proof -
  let ?h = "''$2a$10$abcdefghijklmnopqrstuvab.ab.ab.ab.ab.ab.ab.ab.ab.ab.a''"
  have g: "GenerateFromPassword demo_package ''ab'' = Inr ?h"
    by (rule eval_Generate(3))
  have f: "filter (\<lambda>u. User_Username u = ''bob'') (users demo_db) = []"
    by (simp add: demo_db_def demo_admin_def)
  have c: "CreateUser demo_package 7 demo_db (demo_bob\<lparr>User_Password := ''ab''\<rparr>) =
     (Inr (demo_bob\<lparr>User_ID := 2, User_Password := ?h, User_CreatedAt := 7, User_UpdatedAt := 7\<rparr>),
      demo_db\<lparr>users := [demo_admin, demo_bob\<lparr>User_ID := 2, User_Password := ?h,
                  User_CreatedAt := 7, User_UpdatedAt := 7\<rparr>],
              users_seq := 2\<rparr>)"
    by (simp add: CreateUser_def demo_bob_def f g)
       (simp add: gorm_Create_user_def demo_db_def demo_admin_def max_id_def Let_def)
  have k: "bcrypt_key (''ab'' @ [CHR 0x00] @ ''ab'') = bcrypt_key ''ab''"
    by (simp add: bcrypt_key_def eval_nat_numeral)
  have v1: "CompareHashAndPassword demo_package ?h ''ab''"
    using bcrypt_package_accepts[OF g[unfolded demo_package_def], of "''ab''"]
    by (simp add: demo_package_def)
  have v2: "CompareHashAndPassword demo_package ?h (''ab'' @ [CHR 0x00] @ ''ab'')"
    using bcrypt_package_accepts[OF g[unfolded demo_package_def] k]
    by (simp add: demo_package_def)
  from c g v1 v2 k show ?thesis
    by (simp add: VerifyPassword_def)
qed

subsection \<open>Claim C9: responses without passwords\<close>

lemma user_json_hide: "user_json (hide_password u) = user_json u"
  by (simp add: user_json_def hide_password_def)

lemma map_user_json_hide: "map user_json (map hide_password us) = map user_json us"
  by (simp add: user_json_hide)

lemma gorm_Offset_Limit_Find_map:
  "gorm_Offset_Limit_Find offset limit (map f rows) = map f (gorm_Offset_Limit_Find offset limit rows)"
  by (simp add: gorm_Offset_Limit_Find_def Let_def take_map drop_map)

lemma arg_min_list_map:
  "xs \<noteq> [] \<Longrightarrow> (\<And>x. pk (f x) = pk x) \<Longrightarrow> arg_min_list pk (map f xs) = f (arg_min_list pk xs)"
proof (induction pk xs rule: arg_min_list.induct)
  case (1 g x)
  then show ?case by simp
next
  case (2 g x y zs)
  then show ?case by (simp add: Let_def)
next
  case (3 a)
  then show ?case by simp
qed

lemma gorm_First_map:
  assumes "\<And>x. pk (f x) = pk x" and "\<And>x. cond (f x) = cond x"
  shows "gorm_First pk cond (map f rows) = map_sum id f (gorm_First pk cond rows)"
proof -
  have fm: "filter cond (map f rows) = map f (filter cond rows)"
    by (simp add: filter_map comp_def assms(2))
  show ?thesis
  proof (cases "filter cond rows")
    case Nil
    with fm show ?thesis by (simp add: gorm_First_def)
  next
    case (Cons r rs)
    then have "arg_min_list pk (map f (r # rs)) = f (arg_min_list pk (r # rs))"
      using assms(1) by (intro arg_min_list_map) simp_all
    with fm Cons show ?thesis by (simp add: gorm_First_def)
  qed
qed

lemma GetList_hide: "UserController_GetList (hide_passwords db) page pageSize = UserController_GetList db page pageSize"
  by (simp add: UserController_GetList_def GetUserList_def hide_passwords_def Let_def
      gorm_Offset_Limit_Find_map comp_def user_json_hide)

lemma GetUserByID_hide:
  "GetUserByID (hide_passwords db) id' = map_sum id hide_password (GetUserByID db id')"
proof -
  have "gorm_First User_ID (\<lambda>u. User_ID u = id') (map hide_password (users db))
        = map_sum id hide_password (gorm_First User_ID (\<lambda>u. User_ID u = id') (users db))"
    by (rule gorm_First_map) (simp_all add: hide_password_def)
  then show ?thesis
    by (cases "gorm_First User_ID (\<lambda>u. User_ID u = id') (users db)")
       (simp_all add: GetUserByID_def hide_passwords_def)
qed

lemma GetDetail_hide: "UserController_GetDetail (hide_passwords db) id' = UserController_GetDetail db id'"
  by (cases "GetUserByID db id'") (simp_all add: UserController_GetDetail_def GetUserByID_hide user_json_hide)

lemma hide_columns:
  "map User_ID (map hide_password us) = map User_ID us"
  "map User_Username (map hide_password us) = map User_Username us"
  "filter (\<lambda>u. User_Username u = n) (map hide_password us) = map hide_password (filter (\<lambda>u. User_Username u = n) us)"
  by (simp_all add: hide_password_def filter_map comp_def)

lemma gorm_Create_user_hide:
  "fst (gorm_Create_user now (hide_passwords db) user) = fst (gorm_Create_user now db user)"
  by (simp add: gorm_Create_user_def hide_passwords_def Let_def hide_columns del: set_map map_map)

lemma CreateUser_hide: "fst (CreateUser bc now (hide_passwords db) user) = fst (CreateUser bc now db user)"
proof -
  have c: "(filter (\<lambda>u. User_Username u = User_Username user) (users (hide_passwords db)) = [])
         = (filter (\<lambda>u. User_Username u = User_Username user) (users db) = [])"
    by (simp add: hide_passwords_def hide_columns(3))
  show ?thesis
    by (cases "GenerateFromPassword bc (User_Password user)")
       (simp_all add: CreateUser_def Let_def c gorm_Create_user_hide)
qed

lemma Create_hide:
  "fst (UserController_Create is_email bc now (hide_passwords db) body) = fst (UserController_Create is_email bc now db body)"
proof (cases "bind_CreateUserRequest is_email body")
  case None
  then show ?thesis by (simp add: UserController_Create_def)
next
  case (Some req)
  let ?user = "\<lparr>User_ID = 0, User_Username = Create_Username req,
                       User_Password = Create_Password req, User_Realname = Create_Realname req,
                       User_Email = Create_Email req, User_Status = 1, User_CreatedAt = 0,
                       User_UpdatedAt = 0, User_RoleID = None\<rparr>"
  from CreateUser_hide[of bc now db ?user] show ?thesis
    by (cases "CreateUser bc now (hide_passwords db) ?user"; cases "CreateUser bc now db ?user")
       (auto simp: UserController_Create_def Some Let_def split: sum.splits)
qed

lemma gorm_Create_user_password:
  "map_sum id user_json (fst (gorm_Create_user now db (user\<lparr>User_Password := h\<rparr>)))
   = map_sum id user_json (fst (gorm_Create_user now db (user\<lparr>User_Password := h'\<rparr>)))"
  by (simp add: gorm_Create_user_def Let_def user_json_def)

lemma Create_response:
  "fst (UserController_Create is_email bc now db body) =
     (case bind_CreateUserRequest is_email body of
        None \<Rightarrow> (400, Error Msg_param_error)
      | Some req \<Rightarrow>
          (case map_sum id user_json (fst (CreateUser bc now db
                  \<lparr>User_ID = 0, User_Username = Create_Username req,
                       User_Password = Create_Password req, User_Realname = Create_Realname req,
                       User_Email = Create_Email req, User_Status = 1, User_CreatedAt = 0,
                       User_UpdatedAt = 0, User_RoleID = None\<rparr>)) of
             Inl err \<Rightarrow> (200, Error (Msg_error err))
           | Inr j \<Rightarrow> (200, Success (Some j))))"
  by (auto simp: UserController_Create_def Let_def split: option.splits sum.splits prod.splits)

lemma CreateUser_outcome:
  assumes "same_outcome bc bc'"
  shows "map_sum id user_json (fst (CreateUser bc now db user)) = map_sum id user_json (fst (CreateUser bc' now db user))"
proof -
  from assms have o: "map_sum id (\<lambda>h. ()) (GenerateFromPassword bc (User_Password user))
      = map_sum id (\<lambda>h. ()) (GenerateFromPassword bc' (User_Password user))"
    by (simp add: same_outcome_def)
  show ?thesis
  proof (cases "GenerateFromPassword bc (User_Password user)")
    case (Inl e)
    with o have "GenerateFromPassword bc' (User_Password user) = Inl e"
      by (cases "GenerateFromPassword bc' (User_Password user)") simp_all
    with Inl show ?thesis by (simp add: CreateUser_def Let_def)
  next
    case (Inr h)
    with o obtain h' where "GenerateFromPassword bc' (User_Password user) = Inr h'"
      by (cases "GenerateFromPassword bc' (User_Password user)") simp_all
    with Inr gorm_Create_user_password[where now = now and db = db and user = user and h = h and h' = h'] show ?thesis
      by (simp add: CreateUser_def Let_def)
  qed
qed

text \<open>Claim C9. The JSON of a user has no \<open>password\<close> key and does not depend on the password
  field; the responses of \<open>GetList\<close>, \<open>GetDetail\<close> and \<open>Create\<close> are the same on two databases that
  differ in the stored hashes only, and the response of \<open>Create\<close> is the same whatever hash
  bcrypt returns for the new password.\<close>

theorem C9_no_password_in_responses:
  "''password'' \<notin> set (json_keys (user_json u)) \<and>
   user_json (u\<lparr>User_Password := h\<rparr>) = user_json u \<and>
   (same_but_passwords db db' \<longrightarrow>
      UserController_GetList db page pageSize = UserController_GetList db' page pageSize \<and>
      UserController_GetDetail db id' = UserController_GetDetail db' id' \<and>
      fst (UserController_Create is_email bc now db body) = fst (UserController_Create is_email bc now db' body)) \<and>
   (same_outcome bc bc' \<longrightarrow>
      fst (UserController_Create is_email bc now db body) = fst (UserController_Create is_email bc' now db body))"
proof (intro conjI impI)
  show "''password'' \<notin> set (json_keys (user_json u))"
    by (simp add: json_keys_def user_json_def)
  show "user_json (u\<lparr>User_Password := h\<rparr>) = user_json u"
    by (simp add: user_json_def)
next
  assume "same_but_passwords db db'"
  then have e: "hide_passwords db = hide_passwords db'" by (simp add: same_but_passwords_def)
  show "UserController_GetList db page pageSize = UserController_GetList db' page pageSize"
    using GetList_hide[of db page pageSize] GetList_hide[of db' page pageSize] e by simp
  show "UserController_GetDetail db id' = UserController_GetDetail db' id'"
    using GetDetail_hide[of db id'] GetDetail_hide[of db' id'] e by simp
  show "fst (UserController_Create is_email bc now db body) = fst (UserController_Create is_email bc now db' body)"
    using Create_hide[of is_email bc now db body] Create_hide[of is_email bc now db' body] e by simp
next
  assume "same_outcome bc bc'"
  note o = CreateUser_outcome[OF this]
  show "fst (UserController_Create is_email bc now db body) = fst (UserController_Create is_email bc' now db body)"
    unfolding Create_response by (simp only: o)
qed

subsection \<open>Claim C10: partial updates\<close>

text \<open>The theorem on the example databases: the responses for the administrator are the same
  with either hash stored.\<close>

theorem C9_witness:
  "same_but_passwords demo_db demo_db_rehashed \<and>
   UserController_GetDetail demo_db 1 = UserController_GetDetail demo_db_rehashed 1 \<and>
   UserController_GetList demo_db 1 10 = UserController_GetList demo_db_rehashed 1 10 \<and>
   UserController_GetDetail demo_db_rehashed 1 = (200, Success (Some (user_json demo_admin)))"
proof -
  have s: "same_but_passwords demo_db demo_db_rehashed"
    by (simp add: same_but_passwords_def hide_passwords_def demo_db_rehashed_def demo_db_def hide_password_def)
  note t = C9_no_password_in_responses[where db = demo_db and db' = demo_db_rehashed and id' = 1
      and page = 1 and pageSize = 10 and u = demo_admin]
  from t s have 1: "UserController_GetDetail demo_db 1 = UserController_GetDetail demo_db_rehashed 1"
    and 2: "UserController_GetList demo_db 1 10 = UserController_GetList demo_db_rehashed 1 10"
    by blast+
  have "UserController_GetDetail demo_db 1 = (200, Success (Some (user_json demo_admin)))"
    by (simp add: UserController_GetDetail_def GetUserByID_def gorm_First_def demo_db_def demo_admin_def)
  with s 1 2 show ?thesis by simp
qed

lemma fmdom_user_updates:
  "fmdom (user_updates req) |\<subseteq>| {|''username'', ''realname'', ''email'', ''status''|}"
  by (auto simp: user_updates_def Let_def split: option.splits)

lemma fmdom_role_updates:
  "fmdom (role_updates req) |\<subseteq>| {|''name'', ''code'', ''description''|}"
  by (auto simp: role_updates_def Let_def)

lemma absent_user_updates:
  "k |\<notin>| {|''username'', ''realname'', ''email'', ''status''|} \<Longrightarrow> fmlookup (user_updates req) k = None"
  by (rule absent_key[OF fmdom_user_updates])

lemma absent_role_updates:
  "k |\<notin>| {|''name'', ''code'', ''description''|} \<Longrightarrow> fmlookup (role_updates req) k = None"
  by (rule absent_key[OF fmdom_role_updates])

lemma lookup_user_updates:
  "fmlookup (user_updates req) ''username'' =
     (if Update_Username req = [] then None else Some (VString (Update_Username req)))"
  "fmlookup (user_updates req) ''realname'' =
     (if Update_Realname req = [] then None else Some (VString (Update_Realname req)))"
  "fmlookup (user_updates req) ''email'' =
     (if Update_Email req = [] then None else Some (VString (Update_Email req)))"
  "fmlookup (user_updates req) ''status'' = map_option VInt (Update_Status req)"
  "fmlookup (user_updates req) ''password'' = None"
  by (simp_all add: user_updates_def Let_def split: option.splits)

lemma lookup_role_updates:
  "fmlookup (role_updates req) ''name'' =
     (if Update_Name req = [] then None else Some (VString (Update_Name req)))"
  "fmlookup (role_updates req) ''code'' =
     (if Update_Code req = [] then None else Some (VString (Update_Code req)))"
  "fmlookup (role_updates req) ''description'' =
     (if Update_Description req = [] then None else Some (VString (Update_Description req)))"
  by (simp_all add: role_updates_def Let_def)

lemma entry_user_updates:
  "entry (user_updates req) ''id'' ''ID'' = None"
  "entry (user_updates req) ''username'' ''Username'' =
     (if Update_Username req = [] then None else Some (VString (Update_Username req)))"
  "entry (user_updates req) ''password'' ''Password'' = None"
  "entry (user_updates req) ''realname'' ''Realname'' =
     (if Update_Realname req = [] then None else Some (VString (Update_Realname req)))"
  "entry (user_updates req) ''email'' ''Email'' =
     (if Update_Email req = [] then None else Some (VString (Update_Email req)))"
  "entry (user_updates req) ''status'' ''Status'' = map_option VInt (Update_Status req)"
  "entry (user_updates req) ''role_id'' ''RoleID'' = None"
  "entry (user_updates req) ''created_at'' ''CreatedAt'' = None"
  "entry (user_updates req) ''updated_at'' ''UpdatedAt'' = None"
  by (simp_all add: entry_def lookup_user_updates absent_user_updates split: option.splits)

lemma entry_role_updates:
  "entry (role_updates req) ''id'' ''ID'' = None"
  "entry (role_updates req) ''name'' ''Name'' =
     (if Update_Name req = [] then None else Some (VString (Update_Name req)))"
  "entry (role_updates req) ''code'' ''Code'' =
     (if Update_Code req = [] then None else Some (VString (Update_Code req)))"
  "entry (role_updates req) ''description'' ''Description'' =
     (if Update_Description req = [] then None else Some (VString (Update_Description req)))"
  "entry (role_updates req) ''created_at'' ''CreatedAt'' = None"
  "entry (role_updates req) ''updated_at'' ''UpdatedAt'' = None"
  by (simp_all add: entry_def lookup_role_updates absent_role_updates)

lemma assign_user_frame:
  "User_ID (assign_user (user_updates req) now u) = User_ID u \<and>
   User_Password (assign_user (user_updates req) now u) = User_Password u \<and>
   kept_unless_sent (Update_Username req) (User_Username u) (User_Username (assign_user (user_updates req) now u)) \<and>
   kept_unless_sent (Update_Realname req) (User_Realname u) (User_Realname (assign_user (user_updates req) now u)) \<and>
   kept_unless_sent (Update_Email req) (User_Email u) (User_Email (assign_user (user_updates req) now u))"
  by (simp add: assign_user_def entry_user_updates text_or_def integer_or_def text_cell_def kept_unless_sent_def)

lemma assign_role_frame:
  "Role_ID (assign_role (role_updates req) now r) = Role_ID r \<and>
   kept_unless_sent (Update_Name req) (Role_Name r) (Role_Name (assign_role (role_updates req) now r)) \<and>
   kept_unless_sent (Update_Code req) (Role_Code r) (Role_Code (assign_role (role_updates req) now r)) \<and>
   kept_unless_sent (Update_Description req) (Role_Description r) (Role_Description (assign_role (role_updates req) now r))"
  by (simp add: assign_role_def entry_role_updates text_or_def integer_or_def text_cell_def kept_unless_sent_def)

lemma kept_same: "kept_unless_sent sent old old"
  by (simp add: kept_unless_sent_def)

lemma gorm_Updates_users_rows:
  assumes "entry m ''id'' ''ID'' = None"
  shows "users (snd (gorm_Updates_users now db id' m)) = users db \<or>
     users (snd (gorm_Updates_users now db id' m)) =
       map (\<lambda>u. if User_ID u = id' then assign_user m now u else u) (users db)"
  by (simp add: gorm_Updates_users_def assms Let_def)

lemma UpdateRole_rows:
  assumes "entry m ''id'' ''ID'' = None"
  shows "roles (snd (UpdateRole now db id' m)) = roles db \<or>
     roles (snd (UpdateRole now db id' m)) =
       map (\<lambda>r. if Role_ID r = id' then assign_role m now r else r) (roles db)"
  by (simp add: UpdateRole_def assms Let_def)

lemma Update_users:
  "users (snd (UserController_Update bc now db id' (Some req))) = users db \<or>
   users (snd (UserController_Update bc now db id' (Some req))) =
     map (\<lambda>u. if User_ID u = id' then assign_user (user_updates req) now u else u) (users db)"
proof -
  have "snd (UserController_Update bc now db id' (Some req)) =
      snd (gorm_Updates_users now db id' (user_updates req))"
    by (simp add: UserController_Update_def UpdateUser_def lookup_user_updates split: prod.splits sum.splits)
  with gorm_Updates_users_rows[OF entry_user_updates(1), of now db id' req] show ?thesis by simp
qed

lemma Update_roles:
  "roles (snd (RoleController_Update now db id' (Some req))) = roles db \<or>
   roles (snd (RoleController_Update now db id' (Some req))) =
     map (\<lambda>r. if Role_ID r = id' then assign_role (role_updates req) now r else r) (roles db)"
proof -
  have "snd (RoleController_Update now db id' (Some req)) = snd (UpdateRole now db id' (role_updates req))"
    by (simp add: RoleController_Update_def split: prod.splits sum.splits)
  with UpdateRole_rows[OF entry_role_updates(1), of now db id' req] show ?thesis by simp
qed

text \<open>Claim C10. After the user (role) PUT handler, whatever the request: every row keeps its
  key, a row with another key is unchanged, and each string column of a row keeps its
  stored value when the request sent the field empty or left it out, and is empty only if
  it was empty before. The handler for users never writes the password. A request that
  does not bind changes nothing.\<close>

theorem C10_empty_fields_keep_stored_values:
  "(case body of
      None \<Rightarrow> snd (UserController_Update bc now db id' body) = db
    | Some req \<Rightarrow>
        list_all2 (\<lambda>u u'. User_ID u' = User_ID u \<and> User_Password u' = User_Password u \<and>
                     (User_ID u \<noteq> id' \<longrightarrow> u' = u) \<and>
                     kept_unless_sent (Update_Username req) (User_Username u) (User_Username u') \<and>
                     kept_unless_sent (Update_Realname req) (User_Realname u) (User_Realname u') \<and>
                     kept_unless_sent (Update_Email req) (User_Email u) (User_Email u'))
          (users db) (users (snd (UserController_Update bc now db id' body)))) \<and>
   (case rbody of
      None \<Rightarrow> snd (RoleController_Update now db rid rbody) = db
    | Some req \<Rightarrow>
        list_all2 (\<lambda>r r'. Role_ID r' = Role_ID r \<and> (Role_ID r \<noteq> rid \<longrightarrow> r' = r) \<and>
                     kept_unless_sent (Update_Name req) (Role_Name r) (Role_Name r') \<and>
                     kept_unless_sent (Update_Code req) (Role_Code r) (Role_Code r') \<and>
                     kept_unless_sent (Update_Description req) (Role_Description r) (Role_Description r'))
          (roles db) (roles (snd (RoleController_Update now db rid rbody))))"
proof (intro conjI)
  show "case body of
      None \<Rightarrow> snd (UserController_Update bc now db id' body) = db
    | Some req \<Rightarrow>
        list_all2 (\<lambda>u u'. User_ID u' = User_ID u \<and> User_Password u' = User_Password u \<and>
                     (User_ID u \<noteq> id' \<longrightarrow> u' = u) \<and>
                     kept_unless_sent (Update_Username req) (User_Username u) (User_Username u') \<and>
                     kept_unless_sent (Update_Realname req) (User_Realname u) (User_Realname u') \<and>
                     kept_unless_sent (Update_Email req) (User_Email u) (User_Email u'))
          (users db) (users (snd (UserController_Update bc now db id' body)))"
  proof (cases body)
    case None
    then show ?thesis by (simp add: UserController_Update_def)
  next
    case (Some req)
    from Update_users[of bc now db id' req] show ?thesis unfolding Some option.case
    proof
      assume "users (snd (UserController_Update bc now db id' (Some req))) = users db"
      then show "list_all2 (\<lambda>u u'. User_ID u' = User_ID u \<and> User_Password u' = User_Password u \<and>
                     (User_ID u \<noteq> id' \<longrightarrow> u' = u) \<and>
                     kept_unless_sent (Update_Username req) (User_Username u) (User_Username u') \<and>
                     kept_unless_sent (Update_Realname req) (User_Realname u) (User_Realname u') \<and>
                     kept_unless_sent (Update_Email req) (User_Email u) (User_Email u'))
          (users db) (users (snd (UserController_Update bc now db id' (Some req))))"
        by (simp add: list.rel_refl_strong kept_same)
    next
      assume "users (snd (UserController_Update bc now db id' (Some req))) =
          map (\<lambda>u. if User_ID u = id' then assign_user (user_updates req) now u else u) (users db)"
      then show "list_all2 (\<lambda>u u'. User_ID u' = User_ID u \<and> User_Password u' = User_Password u \<and>
                     (User_ID u \<noteq> id' \<longrightarrow> u' = u) \<and>
                     kept_unless_sent (Update_Username req) (User_Username u) (User_Username u') \<and>
                     kept_unless_sent (Update_Realname req) (User_Realname u) (User_Realname u') \<and>
                     kept_unless_sent (Update_Email req) (User_Email u) (User_Email u'))
          (users db) (users (snd (UserController_Update bc now db id' (Some req))))"
        by (simp add: list_all2_map2 list.rel_refl_strong kept_same assign_user_frame)
    qed
  qed
  show "case rbody of
      None \<Rightarrow> snd (RoleController_Update now db rid rbody) = db
    | Some req \<Rightarrow>
        list_all2 (\<lambda>r r'. Role_ID r' = Role_ID r \<and> (Role_ID r \<noteq> rid \<longrightarrow> r' = r) \<and>
                     kept_unless_sent (Update_Name req) (Role_Name r) (Role_Name r') \<and>
                     kept_unless_sent (Update_Code req) (Role_Code r) (Role_Code r') \<and>
                     kept_unless_sent (Update_Description req) (Role_Description r) (Role_Description r'))
          (roles db) (roles (snd (RoleController_Update now db rid rbody)))"
  proof (cases rbody)
    case None
    then show ?thesis by (simp add: RoleController_Update_def)
  next
    case (Some req)
    from Update_roles[of now db rid req] show ?thesis unfolding Some option.case
    proof
      assume "roles (snd (RoleController_Update now db rid (Some req))) = roles db"
      then show "list_all2 (\<lambda>r r'. Role_ID r' = Role_ID r \<and> (Role_ID r \<noteq> rid \<longrightarrow> r' = r) \<and>
                     kept_unless_sent (Update_Name req) (Role_Name r) (Role_Name r') \<and>
                     kept_unless_sent (Update_Code req) (Role_Code r) (Role_Code r') \<and>
                     kept_unless_sent (Update_Description req) (Role_Description r) (Role_Description r'))
          (roles db) (roles (snd (RoleController_Update now db rid (Some req))))"
        by (simp add: list.rel_refl_strong kept_same)
    next
      assume "roles (snd (RoleController_Update now db rid (Some req))) =
          map (\<lambda>r. if Role_ID r = rid then assign_role (role_updates req) now r else r) (roles db)"
      then show "list_all2 (\<lambda>r r'. Role_ID r' = Role_ID r \<and> (Role_ID r \<noteq> rid \<longrightarrow> r' = r) \<and>
                     kept_unless_sent (Update_Name req) (Role_Name r) (Role_Name r') \<and>
                     kept_unless_sent (Update_Code req) (Role_Code r) (Role_Code r') \<and>
                     kept_unless_sent (Update_Description req) (Role_Description r) (Role_Description r'))
          (roles db) (roles (snd (RoleController_Update now db rid (Some req))))"
        by (simp add: list_all2_map2 list.rel_refl_strong kept_same assign_role_frame)
    qed
  qed
qed

lemma eval_Update_demo:
  "snd (UserController_Update demo_bcrypt 7 demo_db 1 (Some demo_update)) =
     demo_db\<lparr>users := [demo_admin\<lparr>User_Realname := ''Root'', User_UpdatedAt := 7\<rparr>]\<rparr>"
proof -
  let ?m = "user_updates demo_update"
  have l: "fmlookup ?m ''password'' = None"
    by (rule lookup_user_updates)
  have e: "entry ?m ''id'' ''ID'' = None" "entry ?m ''username'' ''Username'' = None"
    "entry ?m ''password'' ''Password'' = None"
    "entry ?m ''realname'' ''Realname'' = Some (VString ''Root'')" "entry ?m ''email'' ''Email'' = None"
    "entry ?m ''status'' ''Status'' = None" "entry ?m ''role_id'' ''RoleID'' = None"
    "entry ?m ''created_at'' ''CreatedAt'' = None" "entry ?m ''updated_at'' ''UpdatedAt'' = None"
    by (simp_all add: entry_user_updates demo_update_def)
  have "{|''username'', ''realname'', ''email'', ''status''|} |\<subseteq>| user_keys"
    by (simp add: user_keys_def)
  with fmdom_user_updates have k: "fmdom ?m |\<subseteq>| user_keys"
    by (rule order_trans)
  have r: "representable_user_updates ?m" "\<not> key_mismatch ?m"
    by (simp_all add: representable_user_updates_def key_mismatch_def e holds_nat_def holds_int_def)
  have a: "assign_user ?m 7 demo_admin = demo_admin\<lparr>User_Realname := ''Root'', User_UpdatedAt := 7\<rparr>"
    by (simp add: assign_user_def e text_or_def integer_or_def text_cell_def demo_admin_def)
  have u: "users demo_db = [demo_admin]" "User_ID demo_admin = 1"
    by (simp_all add: demo_db_def demo_admin_def)
  have g: "gorm_Updates_users 7 demo_db 1 ?m =
     (Inr (), demo_db\<lparr>users := [demo_admin\<lparr>User_Realname := ''Root'', User_UpdatedAt := 7\<rparr>]\<rparr>)"
    unfolding gorm_Updates_users_def by (simp add: k r e(1) u a Let_def)
  show ?thesis
    unfolding UserController_Update_def UpdateUser_def l option.case g by simp
qed

lemma eval_Update_role_demo:
  "snd (RoleController_Update 7 demo_db 1 (Some demo_role_update)) =
     demo_db\<lparr>roles := [demo_role\<lparr>Role_Name := ''Owner'', Role_UpdatedAt := 7\<rparr>]\<rparr>"
proof -
  let ?m = "role_updates demo_role_update"
  have e: "entry ?m ''id'' ''ID'' = None" "entry ?m ''name'' ''Name'' = Some (VString ''Owner'')"
    "entry ?m ''code'' ''Code'' = None" "entry ?m ''description'' ''Description'' = None"
    "entry ?m ''created_at'' ''CreatedAt'' = None" "entry ?m ''updated_at'' ''UpdatedAt'' = None"
    by (simp_all add: entry_role_updates demo_role_update_def)
  have "{|''name'', ''code'', ''description''|} |\<subseteq>| role_keys"
    by (simp add: role_keys_def)
  with fmdom_role_updates have k: "fmdom ?m |\<subseteq>| role_keys"
    by (rule order_trans)
  have r: "representable_role_updates ?m" "\<not> key_mismatch ?m"
    by (simp_all add: representable_role_updates_def key_mismatch_def e holds_nat_def)
  have a: "assign_role ?m 7 demo_role = demo_role\<lparr>Role_Name := ''Owner'', Role_UpdatedAt := 7\<rparr>"
    by (simp add: assign_role_def e text_or_def integer_or_def text_cell_def demo_role_def)
  have u: "roles demo_db = [demo_role]" "Role_ID demo_role = 1"
    by (simp_all add: demo_db_def demo_role_def)
  have g: "UpdateRole 7 demo_db 1 ?m =
     (Inr (), demo_db\<lparr>roles := [demo_role\<lparr>Role_Name := ''Owner'', Role_UpdatedAt := 7\<rparr>]\<rparr>)"
    unfolding UpdateRole_def by (simp add: k r e(1) u a Let_def)
  show ?thesis
    unfolding RoleController_Update_def option.case g by simp
qed

text \<open>The theorem on the example database: a request with a new real name and nothing else
  leaves user name, email and password of the administrator as they were; a request with a
  new role name leaves code and description of the role as they were.\<close>

theorem C10_witness:
  "users (snd (UserController_Update demo_bcrypt 7 demo_db 1 (Some demo_update))) =
     [demo_admin\<lparr>User_Realname := ''Root'', User_UpdatedAt := 7\<rparr>] \<and>
   list_all2 (\<lambda>u u'. User_Username u' = User_Username u \<and> User_Email u' = User_Email u \<and>
                User_Password u' = User_Password u)
     (users demo_db) (users (snd (UserController_Update demo_bcrypt 7 demo_db 1 (Some demo_update)))) \<and>
   roles (snd (RoleController_Update 7 demo_db 1 (Some demo_role_update))) =
     [demo_role\<lparr>Role_Name := ''Owner'', Role_UpdatedAt := 7\<rparr>] \<and>
   list_all2 (\<lambda>r r'. Role_Code r' = Role_Code r \<and> Role_Description r' = Role_Description r)
     (roles demo_db) (roles (snd (RoleController_Update 7 demo_db 1 (Some demo_role_update))))"
proof -
  note t = C10_empty_fields_keep_stored_values[where body = "Some demo_update" and bc = demo_bcrypt
      and now = 7 and db = demo_db and id' = 1 and rbody = "Some demo_role_update" and rid = 1]
  have e: "Update_Username demo_update = []" "Update_Email demo_update = []"
    "Update_Code demo_role_update = []" "Update_Description demo_role_update = []"
    by (simp_all add: demo_update_def demo_role_update_def)
  from t have "list_all2 (\<lambda>u u'. User_ID u' = User_ID u \<and> User_Password u' = User_Password u \<and>
                     (User_ID u \<noteq> 1 \<longrightarrow> u' = u) \<and>
                     kept_unless_sent (Update_Username demo_update) (User_Username u) (User_Username u') \<and>
                     kept_unless_sent (Update_Realname demo_update) (User_Realname u) (User_Realname u') \<and>
                     kept_unless_sent (Update_Email demo_update) (User_Email u) (User_Email u'))
          (users demo_db) (users (snd (UserController_Update demo_bcrypt 7 demo_db 1 (Some demo_update))))"
    by simp
  then have 1: "list_all2 (\<lambda>u u'. User_Username u' = User_Username u \<and> User_Email u' = User_Email u \<and>
                User_Password u' = User_Password u)
     (users demo_db) (users (snd (UserController_Update demo_bcrypt 7 demo_db 1 (Some demo_update))))"
    by (rule list_all2_mono) (simp add: kept_unless_sent_def e)
  from t have "list_all2 (\<lambda>r r'. Role_ID r' = Role_ID r \<and> (Role_ID r \<noteq> 1 \<longrightarrow> r' = r) \<and>
                     kept_unless_sent (Update_Name demo_role_update) (Role_Name r) (Role_Name r') \<and>
                     kept_unless_sent (Update_Code demo_role_update) (Role_Code r) (Role_Code r') \<and>
                     kept_unless_sent (Update_Description demo_role_update) (Role_Description r) (Role_Description r'))
          (roles demo_db) (roles (snd (RoleController_Update 7 demo_db 1 (Some demo_role_update))))"
    by simp
  then have 2: "list_all2 (\<lambda>r r'. Role_Code r' = Role_Code r \<and> Role_Description r' = Role_Description r)
     (roles demo_db) (roles (snd (RoleController_Update 7 demo_db 1 (Some demo_role_update))))"
    by (rule list_all2_mono) (simp add: kept_unless_sent_def e)
  have 3: "users (snd (UserController_Update demo_bcrypt 7 demo_db 1 (Some demo_update))) =
     [demo_admin\<lparr>User_Realname := ''Root'', User_UpdatedAt := 7\<rparr>]"
    by (simp only: eval_Update_demo) simp
  have 4: "roles (snd (RoleController_Update 7 demo_db 1 (Some demo_role_update))) =
     [demo_role\<lparr>Role_Name := ''Owner'', Role_UpdatedAt := 7\<rparr>]"
    by (simp only: eval_Update_role_demo) simp
  from 1 2 3 4 show ?thesis by blast
qed

end
